theory Spec2Isabelle
  imports Main "HOL-Library.Multiset"
begin

section \<open>Time: instants, the Jakarta wall clock and the business date\<close>

text \<open>
  An instant is a JavaScript time value: milliseconds since 1970-01-01T00:00:00Z, an
  integer. The handlers build \<^verbatim>\<open>new Date(now.toLocaleString("en-US", {timeZone:
  "Asia/Jakarta"}))\<close>: a Date whose local fields (getHours, getMinutes, getDate, ...)
  read the Jakarta wall clock. Such a Date is represented by its wall-clock reading, the
  milliseconds since 1970-01-01T00:00 of what its local fields show. Asia/Jakarta is
  UTC+7 without daylight saving; the string produced by toLocaleString has no
  milliseconds, so the reading is cut to whole seconds.

  A date string \<^verbatim>\<open>YYYY-MM-DD\<close> is represented by the calendar day it names, as a
  count of days since 1970-01-01.
\<close>

type_synonym instant = int
type_synonym wallclock = int
type_synonym datestr = int

definition jakartaOffsetMs :: int where
  "jakartaOffsetMs = 7 * 3600000"

definition toJakartaTime :: "instant \<Rightarrow> wallclock" where
  "toJakartaTime now = ((now + jakartaOffsetMs) div 1000) * 1000"

definition getHours :: "wallclock \<Rightarrow> int" where
  "getHours w = (w div 3600000) mod 24"

definition getMinutes :: "wallclock \<Rightarrow> int" where
  "getMinutes w = (w div 60000) mod 60"

definition ymd :: "wallclock \<Rightarrow> datestr" where
  \<comment> \<open>the string built from getFullYear, getMonth + 1 and getDate of a wall-clock Date\<close>
  "ymd w = w div 86400000"

definition setDatePrev :: "wallclock \<Rightarrow> wallclock" where
  \<comment> \<open>\<^verbatim>\<open>d.setDate(d.getDate() - 1)\<close>: the same time of day, one calendar day earlier\<close>
  "setDatePrev w = w - 86400000"

definition setHours4 :: "wallclock \<Rightarrow> wallclock" where
  \<comment> \<open>\<^verbatim>\<open>d.setHours(4, 0, 0, 0)\<close>: 04:00:00.000 of the same calendar day\<close>
  "setHours4 w = (w div 86400000) * 86400000 + 4 * 3600000"

definition getJakartaDate :: "instant \<Rightarrow> datestr" where
  "getJakartaDate now =
     (let jakartaTime = toJakartaTime now;
          jakartaTime' = (if getHours jakartaTime < 4 then setDatePrev jakartaTime
                          else jakartaTime)
      in ymd jakartaTime')"

text \<open>
  The notions the specification uses, written directly: the Jakarta local hour, minute of
  the day and calendar day of an instant, and the instant at which the Jakarta wall clock
  shows \<open>h:m\<close> on calendar day \<open>d\<close>.
\<close>

definition jakartaHour :: "instant \<Rightarrow> int" where
  "jakartaHour t = ((t + 7 * 3600000) div 3600000) mod 24"

definition jakartaMinuteOfDay :: "instant \<Rightarrow> int" where
  "jakartaMinuteOfDay t = ((t + 7 * 3600000) div 60000) mod 1440"

definition jakartaDay :: "instant \<Rightarrow> int" where
  "jakartaDay t = (t + 7 * 3600000) div 86400000"

definition jakartaInstant :: "int \<Rightarrow> int \<Rightarrow> int \<Rightarrow> instant" where
  "jakartaInstant d h m = d * 86400000 + h * 3600000 + m * 60000 - 7 * 3600000"

section \<open>The attendance table\<close>

datatype status = Present | Late | Sick | Permission | Absent

record attendance =
  id' :: nat
  userId :: nat
  date :: datestr
  checkIn :: "instant option"
  checkInPhoto :: "string option"
  checkInLocation :: "string option"
  breakStart :: "instant option"
  breakStartPhoto :: "string option"
  breakStartLocation :: "string option"
  breakEnd :: "instant option"
  breakEndPhoto :: "string option"
  breakEndLocation :: "string option"
  checkOut :: "instant option"
  checkOutPhoto :: "string option"
  checkOutLocation :: "string option"
  shift :: "string option"
  sessionNumber :: nat
  status :: status
  notes' :: "string option"
  permitExitAt :: "instant option"
  permitResumeAt :: "instant option"

record store =
  rows :: "attendance list"
  nextId :: nat

definition insertDefaults :: "nat \<Rightarrow> datestr \<Rightarrow> attendance" where
  \<comment> \<open>a row as the table's column defaults leave it: every nullable column null,
      session number 1, status absent (shared/schema.ts)\<close>
  "insertDefaults u d =
     \<lparr> id' = 0, userId = u, date = d,
       checkIn = None, checkInPhoto = None, checkInLocation = None,
       breakStart = None, breakStartPhoto = None, breakStartLocation = None,
       breakEnd = None, breakEndPhoto = None, breakEndLocation = None,
       checkOut = None, checkOutPhoto = None, checkOutLocation = None,
       shift = None, sessionNumber = 1, status = Absent, notes' = None,
       permitExitAt = None, permitResumeAt = None \<rparr>"

definition orKeep :: "'a option \<Rightarrow> 'a option \<Rightarrow> 'a option" where
  \<comment> \<open>a column of an update: an undefined value leaves the column as it is\<close>
  "orKeep new old = (case new of None \<Rightarrow> old | Some v \<Rightarrow> Some v)"

text \<open>
  Modelled from the spec: the persistence interface (server/storage.ts is not among the
  sources). \<open>createAttendance\<close> is the spec's createSession: it appends the row under a
  fresh auto-increment id and returns it. \<open>updateAttendance\<close> is updateSession: it
  applies the given column assignments to the row of that id and returns the row read
  back. \<open>getAttendanceSessionsByUserAndDate\<close> is listSessionsForUserAndDate,
  ``ordered by sessionNumber ascending''. \<open>getAttendanceByUserAndDate\<close> is the
  single-record lookup of the permit handler: the spec's permit creates a session exactly
  when ``no session exists yet today'', so the lookup yields a record whenever the day has
  one; it is taken to be the first of the day's sessions.
\<close>

definition createAttendance :: "store \<Rightarrow> attendance \<Rightarrow> store \<times> attendance" where
  "createAttendance st r =
     (let a = r\<lparr>id' := nextId st\<rparr>
      in (st\<lparr>rows := rows st @ [a], nextId := Suc (nextId st)\<rparr>, a))"

definition updateAttendance ::
  "store \<Rightarrow> nat \<Rightarrow> (attendance \<Rightarrow> attendance) \<Rightarrow> store \<times> attendance option" where
  "updateAttendance st i upd =
     (let st' = st\<lparr>rows := map (\<lambda>r. if id' r = i then upd r else r) (rows st)\<rparr>
      in (st', find (\<lambda>r. id' r = i) (rows st')))"

definition getAttendanceSessionsByUserAndDate ::
  "store \<Rightarrow> nat \<Rightarrow> datestr \<Rightarrow> attendance list" where
  "getAttendanceSessionsByUserAndDate st u d =
     sort_key sessionNumber (filter (\<lambda>r. userId r = u \<and> date r = d) (rows st))"

definition getAttendanceByUserAndDate ::
  "store \<Rightarrow> nat \<Rightarrow> datestr \<Rightarrow> attendance option" where
  "getAttendanceByUserAndDate st u d =
     (case getAttendanceSessionsByUserAndDate st u d of [] \<Rightarrow> None | r # _ \<Rightarrow> Some r)"

section \<open>The route handlers\<close>

text \<open>
  Each handler is a function of the table, the authenticated user's id, the instant of
  the request (the handler's \<^verbatim>\<open>new Date()\<close>) and the request's fields; it returns the
  table after the request and the response. A rejected request (status 400) is \<open>Inl\<close> of
  the failure kind the specification names for that message; an accepted one is \<open>Inr\<close>
  of the row sent back. The photo argument is what \<^verbatim>\<open>handlePhotoUpload\<close> returned: the
  stored file's id, or \<open>None\<close> for undefined.
\<close>

datatype error = SessionConflict | SessionLimitExceeded | NoActiveSession | NoAttendanceToday

type_synonym response = "error + attendance option"

definition orDefault :: "string option \<Rightarrow> string \<Rightarrow> string" where
  \<comment> \<open>\<^verbatim>\<open>x || d\<close> on an optional string: undefined and the empty string are falsy\<close>
  "orDefault x d = (case x of None \<Rightarrow> d | Some v \<Rightarrow> if v = [] then d else v)"

definition digitChar :: "nat \<Rightarrow> char" where
  "digitChar d = ''0123456789'' ! d"

fun showNat :: "nat \<Rightarrow> string" where
  "showNat n = (if n < 10 then [digitChar n] else showNat (n div 10) @ [digitChar (n mod 10)])"

definition clockIn ::
  "store \<Rightarrow> nat \<Rightarrow> instant \<Rightarrow> string option \<Rightarrow> string option \<Rightarrow> string option
     \<Rightarrow> store \<times> response" where
  "clockIn st uid now shiftIn photoFileId location =
     (let today = getJakartaDate now;
          existingSessions = getAttendanceSessionsByUserAndDate st uid today
      in case find (\<lambda>s. checkOut s = None) existingSessions of
           Some activeSession \<Rightarrow> (st, Inl SessionConflict)
         | None \<Rightarrow>
             (let nextSessionNumber = length existingSessions + 1
              in if nextSessionNumber > 5 then (st, Inl SessionLimitExceeded)
                 else
                   (let shiftV = orDefault shiftIn ''Management'';
                        jakartaTime = toJakartaTime now;
                        hour = getHours jakartaTime;
                        minute = getMinutes jakartaTime;
                        timeInMinutes = hour * 60 + minute;
                        statusV = (if timeInMinutes > 420 \<and> shiftV = ''Shift 1'' then Late
                                   else if timeInMinutes > 720 \<and> shiftV = ''Shift 2'' then Late
                                   else Present);
                        (st', attendance) = createAttendance st
                          ((insertDefaults uid today)
                             \<lparr>checkIn := Some now, status := statusV,
                              checkInPhoto := photoFileId, checkInLocation := location,
                              shift := Some shiftV, sessionNumber := nextSessionNumber\<rparr>)
                    in (st', Inr (Some attendance)))))"

definition clockOut ::
  "store \<Rightarrow> nat \<Rightarrow> instant \<Rightarrow> string option \<Rightarrow> string option \<Rightarrow> store \<times> response" where
  "clockOut st uid now photoFileId location =
     (let today = getJakartaDate now;
          sessions = getAttendanceSessionsByUserAndDate st uid today
      in case find (\<lambda>s. checkOut s = None) sessions of
           None \<Rightarrow> (st, Inl NoActiveSession)
         | Some existing \<Rightarrow>
             (let (st', attendance) = updateAttendance st (id' existing)
                    (\<lambda>r. r\<lparr>checkOut := Some now,
                            checkOutPhoto := orKeep photoFileId (checkOutPhoto r),
                            checkOutLocation := orKeep location (checkOutLocation r)\<rparr>)
              in (st', Inr attendance)))"

definition breakStartH ::
  "store \<Rightarrow> nat \<Rightarrow> instant \<Rightarrow> string option \<Rightarrow> string option \<Rightarrow> store \<times> response" where
  "breakStartH st uid now photoFileId location =
     (let today = getJakartaDate now;
          sessions = getAttendanceSessionsByUserAndDate st uid today
      in case find (\<lambda>s. checkOut s = None) sessions of
           None \<Rightarrow> (st, Inl NoActiveSession)
         | Some existing \<Rightarrow>
             (let (st', attendance) = updateAttendance st (id' existing)
                    (\<lambda>r. r\<lparr>breakStart := Some now,
                            breakStartPhoto := orKeep photoFileId (breakStartPhoto r),
                            breakStartLocation := orKeep location (breakStartLocation r)\<rparr>)
              in (st', Inr attendance)))"

definition breakEndH ::
  "store \<Rightarrow> nat \<Rightarrow> instant \<Rightarrow> string option \<Rightarrow> string option \<Rightarrow> store \<times> response" where
  "breakEndH st uid now photoFileId location =
     (let today = getJakartaDate now;
          sessions = getAttendanceSessionsByUserAndDate st uid today
      in case find (\<lambda>s. checkOut s = None) sessions of
           None \<Rightarrow> (st, Inl NoActiveSession)
         | Some existing \<Rightarrow>
             (let (st', attendance) = updateAttendance st (id' existing)
                    (\<lambda>r. r\<lparr>breakEnd := Some now,
                            breakEndPhoto := orKeep photoFileId (breakEndPhoto r),
                            breakEndLocation := orKeep location (breakEndLocation r)\<rparr>)
              in (st', Inr attendance)))"

definition permit ::
  "store \<Rightarrow> nat \<Rightarrow> instant \<Rightarrow> status \<Rightarrow> string option \<Rightarrow> string option \<Rightarrow> store \<times> response" where
  "permit st uid now type notesIn photoFileId =
     (let today = getJakartaDate now
      in case getAttendanceByUserAndDate st uid today of
           Some existing \<Rightarrow>
             (let (st', attendance) = updateAttendance st (id' existing)
                    (\<lambda>r. r\<lparr>status := type,
                            notes' := orKeep notesIn (notes' r),
                            checkOut := Some now,
                            checkOutPhoto := orKeep photoFileId (checkOutPhoto r),
                            permitExitAt := Some now\<rparr>)
              in (st', Inr attendance))
         | None \<Rightarrow>
             (let (st', attendance) = createAttendance st
                    ((insertDefaults uid today)
                       \<lparr>status := type, notes' := notesIn,
                        checkInPhoto := photoFileId, checkIn := Some now\<rparr>)
              in (st', Inr (Some attendance))))"

definition resume :: "store \<Rightarrow> nat \<Rightarrow> instant \<Rightarrow> store \<times> response" where
  "resume st uid now =
     (let today = getJakartaDate now;
          existingSessions = getAttendanceSessionsByUserAndDate st uid today
      in if length existingSessions = 0 then (st, Inl NoAttendanceToday)
         else case find (\<lambda>s. checkOut s = None) existingSessions of
                Some activeSession \<Rightarrow> (st, Inl SessionConflict)
              | None \<Rightarrow>
                  (let nextSessionNumber = length existingSessions + 1;
                       jakartaTime = toJakartaTime now;
                       hour = getHours jakartaTime;
                       minute = getMinutes jakartaTime;
                       timeInMinutes = hour * 60 + minute;
                       statusV = (if timeInMinutes > 420 then Late else Present);
                       (st', newSession) = createAttendance st
                         ((insertDefaults uid today)
                            \<lparr>checkIn := Some now, status := statusV,
                             shift := Some ''Management'',
                             sessionNumber := nextSessionNumber,
                             notes' := Some (''Sesi ke-'' @ showNat nextSessionNumber)\<rparr>)
                   in (st', Inr (Some newSession))))"

text \<open>
  The today handler also takes the UTC offset of the server's own time zone, in
  milliseconds: \<^verbatim>\<open>new Date(jakartaTime.setHours(4, 0, 0, 0))\<close> is the instant at which
  the server's local clock, not Jakarta's, reads 04:00 of that calendar day.
  \<^verbatim>\<open>yesterday.setDate(yesterday.getDate() - 1)\<close> moves the instant back by one day, and
  \<^verbatim>\<open>toLocaleDateString('en-CA', {timeZone: 'Asia/Jakarta'})\<close> names its Jakarta
  calendar day.
\<close>

definition autoCloseNotes :: "string option \<Rightarrow> string" where
  "autoCloseNotes n =
     (case n of None \<Rightarrow> ''Auto-closed at 04:00''
      | Some v \<Rightarrow> if v = [] then ''Auto-closed at 04:00'' else v @ '' (Auto-closed at 04:00)'')"

definition today :: "store \<Rightarrow> nat \<Rightarrow> instant \<Rightarrow> int \<Rightarrow> store \<times> attendance list" where
  "today st uid now serverOffsetMs =
     (let todayStr = getJakartaDate now;
          sessions = getAttendanceSessionsByUserAndDate st uid todayStr
      in if length sessions = 0 then
           (let yesterdayStr = ymd (now - 86400000 + jakartaOffsetMs);
                yesterdaySessions = getAttendanceSessionsByUserAndDate st uid yesterdayStr
            in case find (\<lambda>s. checkOut s = None) yesterdaySessions of
                 None \<Rightarrow> (st, sessions)
               | Some openSession \<Rightarrow>
                   (let jakartaTime = toJakartaTime now
                    in if getHours jakartaTime \<ge> 4 then
                         (fst (updateAttendance st (id' openSession)
                            (\<lambda>r. r\<lparr>checkOut := Some (setHours4 jakartaTime - serverOffsetMs),
                                    notes' := Some (autoCloseNotes (notes' openSession))\<rparr>)),
                          sessions)
                       else (st, sessions)))
         else (st, sessions))"

section \<open>The duration aggregator (client/src/lib/attendance.ts)\<close>

text \<open>
  \<^verbatim>\<open>differenceInMinutes\<close> is the date-fns function: the number of full minutes between
  two dates, the millisecond difference divided by 60000 and truncated towards zero.
\<close>

definition differenceInMinutes :: "instant \<Rightarrow> instant \<Rightarrow> int" where
  "differenceInMinutes dateLeft dateRight =
     (let diff = dateLeft - dateRight
      in if diff \<ge> 0 then diff div 60000 else - ((- diff) div 60000))"

definition calculateDuration :: "instant option \<Rightarrow> instant option \<Rightarrow> int" where
  "calculateDuration start end' =
     (case start of None \<Rightarrow> 0
      | Some s \<Rightarrow> (case end' of None \<Rightarrow> 0 | Some e \<Rightarrow> differenceInMinutes e s))"

record dailyTotal =
  totalWorkMins :: int
  totalBreakMins :: int
  netWorkMins :: int

definition recordStep :: "attendance \<Rightarrow> int \<times> int \<Rightarrow> int \<times> int" where
  \<comment> \<open>the body of the forEach, on the pair (totalWorkMins, totalBreakMins)\<close>
  "recordStep record' acc =
     (let sessionWork = calculateDuration (checkIn record') (checkOut record');
          sessionWork' =
            (if permitExitAt record' \<noteq> None \<and> permitResumeAt record' \<noteq> None then
               (let permitMins = calculateDuration (permitExitAt record') (permitResumeAt record')
                in max 0 (sessionWork - permitMins))
             else sessionWork);
          sessionBreak = calculateDuration (breakStart record') (breakEnd record')
      in (fst acc + sessionWork', snd acc + sessionBreak))"

definition calculateDailyTotal :: "attendance list \<Rightarrow> dailyTotal" where
  "calculateDailyTotal records =
     (let (totalWork, totalBreak) = fold recordStep records (0, 0);
          net = max 0 (totalWork - totalBreak)
      in \<lparr>totalWorkMins = totalWork, totalBreakMins = totalBreak, netWorkMins = net\<rparr>)"

section \<open>The aggregator in the specification's words\<close>

text \<open>
  Per session, work is the minutes from checkIn to checkOut (0 if either is absent), less
  the permit interval, floored at 0, when both permit timestamps are set; break is the
  minutes from breakStart to breakEnd (0 if either is absent); the totals are sums over
  the sessions and net work is their difference, floored at 0. The minutes between two
  timestamps are \<open>differenceInMinutes\<close>.
\<close>

definition specSessionWork :: "attendance \<Rightarrow> int" where
  "specSessionWork r =
     (let w = (case (checkIn r, checkOut r) of
                 (Some i, Some out) \<Rightarrow> differenceInMinutes out i
               | _ \<Rightarrow> 0)
      in case (permitExitAt r, permitResumeAt r) of
           (Some ex, Some re) \<Rightarrow> max 0 (w - differenceInMinutes re ex)
         | _ \<Rightarrow> w)"

definition specSessionBreak :: "attendance \<Rightarrow> int" where
  "specSessionBreak r =
     (case (breakStart r, breakEnd r) of
        (Some s, Some e) \<Rightarrow> differenceInMinutes e s
      | _ \<Rightarrow> 0)"

definition specAggregate :: "attendance list \<Rightarrow> dailyTotal" where
  "specAggregate rs =
     \<lparr>totalWorkMins = sum_list (map specSessionWork rs),
      totalBreakMins = sum_list (map specSessionBreak rs),
      netWorkMins = max 0 (sum_list (map specSessionWork rs) - sum_list (map specSessionBreak rs))\<rparr>"

section \<open>Example tables\<close>

text \<open>
  User 7 on calendar day 20000 (2024-10-04). \<open>closedSession n\<close> is the row that a
  clock-in at (7+n):00 and a clock-out at (7+n):30 Jakarta time leave as session \<open>n\<close>;
  \<open>openSession1\<close> is session 1 after the clock-in at 08:00 alone.
\<close>

definition store0 :: store where
  "store0 = \<lparr>rows = [], nextId = 1\<rparr>"

definition openSession1 :: attendance where
  "openSession1 =
     (insertDefaults 7 20000)
       \<lparr>id' := 1, checkIn := Some (jakartaInstant 20000 8 0),
        shift := Some ''Management'', sessionNumber := 1, status := Present\<rparr>"

definition closedSession :: "nat \<Rightarrow> attendance" where
  "closedSession n =
     (insertDefaults 7 20000)
       \<lparr>id' := n, checkIn := Some (jakartaInstant 20000 (7 + int n) 0),
        checkOut := Some (jakartaInstant 20000 (7 + int n) 30),
        shift := Some ''Management'', sessionNumber := n, status := Present\<rparr>"

definition storeOpen :: store where
  "storeOpen = \<lparr>rows = [openSession1], nextId = 2\<rparr>"

definition storeOnBreak :: store where
  "storeOnBreak =
     \<lparr>rows = [openSession1\<lparr>breakStart := Some (jakartaInstant 20000 12 0)\<rparr>], nextId = 2\<rparr>"

definition storeClosed :: store where
  "storeClosed = \<lparr>rows = [closedSession 1], nextId = 2\<rparr>"

definition storeFiveClosed :: store where
  "storeFiveClosed =
     \<lparr>rows = [closedSession 1, closedSession 2, closedSession 3, closedSession 4,
              closedSession 5],
      nextId = 6\<rparr>"

definition scenarioSession :: attendance where
  "scenarioSession =
     (insertDefaults 7 20000)
       \<lparr>id' := 1, checkIn := Some (jakartaInstant 20000 9 0),
        breakStart := Some (jakartaInstant 20000 12 0),
        breakEnd := Some (jakartaInstant 20000 13 0),
        checkOut := Some (jakartaInstant 20000 17 0),
        shift := Some ''Management'', sessionNumber := 1, status := Late\<rparr>"

text \<open>
  \<open>workHalfHour st h\<close> is the table after user 7 clocks in at \<open>h\<close>:00 and out at
  \<open>h\<close>:30 on day 20000. \<open>secondSession\<close> and \<open>sixthSession\<close> are the rows a resume at
  10:00 and at 14:00 adds after one and after five closed sessions; \<open>permittedSession\<close>
  is session 1 after a sick permit at 10:00.
\<close>

definition workHalfHour :: "store \<Rightarrow> int \<Rightarrow> store" where
  "workHalfHour st h =
     fst (clockOut (fst (clockIn st 7 (jakartaInstant 20000 h 0) None None None)) 7
            (jakartaInstant 20000 h 30) None None)"

definition secondSession :: attendance where
  "secondSession =
     (insertDefaults 7 20000)
       \<lparr>id' := 2, checkIn := Some (jakartaInstant 20000 10 0),
        shift := Some ''Management'', sessionNumber := 2, status := Late,
        notes' := Some ''Sesi ke-2''\<rparr>"

definition sixthSession :: attendance where
  "sixthSession =
     (insertDefaults 7 20000)
       \<lparr>id' := 6, checkIn := Some (jakartaInstant 20000 14 0),
        shift := Some ''Management'', sessionNumber := 6, status := Late,
        notes' := Some ''Sesi ke-6''\<rparr>"

definition permittedSession :: attendance where
  "permittedSession =
     (closedSession 1)
       \<lparr>checkOut := Some (jakartaInstant 20000 10 0), status := Sick,
        notes' := Some ''flu'', permitExitAt := Some (jakartaInstant 20000 10 0)\<rparr>"

text \<open>
  \<open>staleSession\<close> is session 1 of user 7 on day 19999, clocked in at 20:00 and never
  clocked out.
\<close>

definition staleSession :: attendance where
  "staleSession =
     (insertDefaults 7 19999)
       \<lparr>id' := 1, checkIn := Some (jakartaInstant 19999 20 0),
        shift := Some ''Management'', sessionNumber := 1, status := Present\<rparr>"

definition storeStale :: store where
  "storeStale = \<lparr>rows = [staleSession], nextId = 2\<rparr>"

section \<open>The tables the handlers produce\<close>

text \<open>
  A table is reachable when it is an empty table or what one of the seven handlers leaves
  of a reachable table, for any user, instant and request fields. \<open>openRows st u d\<close>
  are the rows of user \<open>u\<close> on date \<open>d\<close> with checkOut null.
\<close>

inductive reachable :: "store \<Rightarrow> bool" where
  initial: "reachable \<lparr>rows = [], nextId = n\<rparr>"
| afterClockIn: "reachable st \<Longrightarrow> reachable (fst (clockIn st uid now shiftIn photoFileId location))"
| afterClockOut: "reachable st \<Longrightarrow> reachable (fst (clockOut st uid now photoFileId location))"
| afterBreakStart: "reachable st \<Longrightarrow> reachable (fst (breakStartH st uid now photoFileId location))"
| afterBreakEnd: "reachable st \<Longrightarrow> reachable (fst (breakEndH st uid now photoFileId location))"
| afterPermit: "reachable st \<Longrightarrow> reachable (fst (permit st uid now type notesIn photoFileId))"
| afterResume: "reachable st \<Longrightarrow> reachable (fst (resume st uid now))"
| afterToday: "reachable st \<Longrightarrow> reachable (fst (today st uid now serverOffsetMs))"

definition openRows :: "store \<Rightarrow> nat \<Rightarrow> datestr \<Rightarrow> attendance list" where
  "openRows st u d = filter (\<lambda>r. userId r = u \<and> date r = d \<and> checkOut r = None) (rows st)"

section \<open>Clock arithmetic\<close>

lemma cut_div:
  assumes "0 < k"
  shows "((x::int) div 1000 * 1000) div (k * 1000) = x div (k * 1000)"
proof -
  have "(x div 1000 * 1000) div (k * 1000) = (x div 1000) div k"
    by simp
  also have "\<dots> = x div (1000 * k)"
    using assms by (simp add: zdiv_zmult2_eq)
  finally show ?thesis by (simp add: mult.commute)
qed

lemma getHours_toJakartaTime: "getHours (toJakartaTime now) = jakartaHour now"
  using cut_div [of 3600 "now + 25200000"]
  by (simp add: getHours_def toJakartaTime_def jakartaHour_def jakartaOffsetMs_def)

lemma getMinutes_toJakartaTime:
  "getMinutes (toJakartaTime now) = ((now + 7 * 3600000) div 60000) mod 60"
  using cut_div [of 60 "now + 25200000"]
  by (simp add: getMinutes_def toJakartaTime_def jakartaOffsetMs_def)

lemma ymd_toJakartaTime: "ymd (toJakartaTime now) = jakartaDay now"
  using cut_div [of 86400 "now + 25200000"]
  by (simp add: ymd_def toJakartaTime_def jakartaDay_def jakartaOffsetMs_def)

lemma ymd_setDatePrev: "ymd (setDatePrev w) = ymd w - 1"
  by (simp add: ymd_def setDatePrev_def)

lemma ymd_yesterday: "ymd (now - 86400000 + jakartaOffsetMs) = jakartaDay now - 1"
  by (simp add: ymd_def jakartaDay_def jakartaOffsetMs_def)

lemma getJakartaDate_eq:
  "getJakartaDate now = (if jakartaHour now < 4 then jakartaDay now - 1 else jakartaDay now)"
  by (simp add: getJakartaDate_def Let_def getHours_toJakartaTime ymd_toJakartaTime
      ymd_setDatePrev)

lemma timeInMinutes_eq:
  "getHours (toJakartaTime now) * 60 + getMinutes (toJakartaTime now) = jakartaMinuteOfDay now"
proof -
  define q where "q = (now + 7 * 3600000) div 60000"
  have "(now + 7 * 3600000) div (60000 * 60) = q div 60"
    unfolding q_def by (rule zdiv_zmult2_eq) simp
  then have h: "jakartaHour now = (q div 60) mod 24"
    unfolding jakartaHour_def by simp
  have "q mod (60 * 24) = 60 * ((q div 60) mod 24) + q mod 60"
    by (rule zmod_zmult2_eq) simp
  then show ?thesis
    unfolding getHours_toJakartaTime getMinutes_toJakartaTime h jakartaMinuteOfDay_def
      q_def [symmetric]
    by simp
qed

lemma jakartaDay_instant:
  assumes "0 \<le> h" "h < 24" "0 \<le> m" "m < 60"
  shows "jakartaDay (jakartaInstant d h m) = d"
proof -
  define r where "r = h * 3600000 + m * 60000"
  have r: "0 \<le> r" "r < 86400000"
    using assms unfolding r_def by auto
  have "jakartaDay (jakartaInstant d h m) = (r + d * 86400000) div 86400000"
    unfolding jakartaDay_def jakartaInstant_def r_def by (simp add: algebra_simps)
  also have "\<dots> = r div 86400000 + d"
    by simp
  also have "r div 86400000 = 0"
    using r by simp
  finally show ?thesis by simp
qed

lemma jakartaHour_instant:
  assumes "0 \<le> h" "h < 24" "0 \<le> m" "m < 60"
  shows "jakartaHour (jakartaInstant d h m) = h"
proof -
  define r where "r = m * 60000"
  have r: "0 \<le> r" "r < 3600000"
    using assms unfolding r_def by auto
  have "(jakartaInstant d h m + 7 * 3600000) div 3600000
        = (r + (d * 24 + h) * 3600000) div 3600000"
    unfolding jakartaInstant_def r_def by (simp add: algebra_simps)
  also have "\<dots> = r div 3600000 + (d * 24 + h)"
    by simp
  also have "r div 3600000 = 0"
    using r by simp
  finally have "jakartaHour (jakartaInstant d h m) = (d * 24 + h) mod 24"
    unfolding jakartaHour_def by simp
  then show ?thesis using assms by simp
qed

lemma jakartaMinuteOfDay_instant:
  assumes "0 \<le> h" "h < 24" "0 \<le> m" "m < 60"
  shows "jakartaMinuteOfDay (jakartaInstant d h m) = h * 60 + m"
proof -
  have "(jakartaInstant d h m + 7 * 3600000) div 60000
        = (0 + (d * 1440 + h * 60 + m) * 60000) div 60000"
    unfolding jakartaInstant_def by (simp add: algebra_simps)
  also have "\<dots> = 0 div 60000 + (d * 1440 + h * 60 + m)"
    by simp
  finally have "jakartaMinuteOfDay (jakartaInstant d h m) = (d * 1440 + (h * 60 + m)) mod 1440"
    unfolding jakartaMinuteOfDay_def by (simp add: algebra_simps)
  then show ?thesis using assms by simp
qed

text \<open>
  C4. For every instant, the business date is the Jakarta calendar day before the local
  date when the Jakarta local hour is below 4, and the local date otherwise; on every
  calendar day \<open>d\<close>, 03:59 Jakarta time belongs to business date \<open>d - 1\<close> and 04:01 to
  \<open>d\<close>, one day apart. \<open>getJakartaDate\<close> is a total function of the instant.
\<close>

theorem getJakartaDate_cutover:
  "getJakartaDate now = (if jakartaHour now < 4 then jakartaDay now - 1 else jakartaDay now)
   \<and> getJakartaDate (jakartaInstant d 3 59) = d - 1
   \<and> getJakartaDate (jakartaInstant d 4 1) = d
   \<and> getJakartaDate (jakartaInstant d 4 1) - getJakartaDate (jakartaInstant d 3 59) = 1"
proof -
  have a: "getJakartaDate (jakartaInstant d 3 59) = d - 1"
    by (simp add: getJakartaDate_eq jakartaHour_instant jakartaDay_instant)
  have b: "getJakartaDate (jakartaInstant d 4 1) = d"
    by (simp add: getJakartaDate_eq jakartaHour_instant jakartaDay_instant)
  show ?thesis
    using a b getJakartaDate_eq [of now] by simp
qed

section \<open>Clock-in\<close>

lemma set_sessions:
  "set (getAttendanceSessionsByUserAndDate st u d) = {r \<in> set (rows st). userId r = u \<and> date r = d}"
  by (auto simp: getAttendanceSessionsByUserAndDate_def)

lemma clockIn_accepted:
  assumes "clockIn st uid now shiftIn photoFileId location = (st', Inr r)"
  shows "r = Some ((insertDefaults uid (getJakartaDate now))
           \<lparr>checkIn := Some now,
            status := (if jakartaMinuteOfDay now > 420 \<and> orDefault shiftIn ''Management'' = ''Shift 1''
                       then Late
                       else if jakartaMinuteOfDay now > 720 \<and> orDefault shiftIn ''Management'' = ''Shift 2''
                       then Late else Present),
            checkInPhoto := photoFileId, checkInLocation := location,
            shift := Some (orDefault shiftIn ''Management''),
            sessionNumber := length (getAttendanceSessionsByUserAndDate st uid (getJakartaDate now)) + 1,
            id' := nextId st\<rparr>)
         \<and> st' = st\<lparr>rows := rows st @ [the r], nextId := Suc (nextId st)\<rparr>"
proof (cases "find (\<lambda>s. checkOut s = None) (getAttendanceSessionsByUserAndDate st uid (getJakartaDate now))")
  case (Some x)
  with assms show ?thesis by (simp add: clockIn_def Let_def)
next
  case None
  show ?thesis
  proof (cases "length (getAttendanceSessionsByUserAndDate st uid (getJakartaDate now)) + 1 > 5")
    case True
    with None assms show ?thesis by (simp add: clockIn_def Let_def)
  next
    case False
    with None assms show ?thesis
      unfolding clockIn_def Let_def timeInMinutes_eq
      by (auto simp: createAttendance_def Let_def)
  qed
qed

text \<open>
  C5. Whenever a clock-in is accepted, it appends exactly one row to the table and sends
  that row back: a session of the user on the business date, checked in at the instant
  of the request and not checked out, numbered count + 1, recording the caller's shift
  (``Management'' when none is given). Its status is late exactly when the Jakarta
  minute of the day exceeds 420 on ``Shift 1'' or exceeds 720 on ``Shift 2''; it is
  present otherwise, so for every other shift at any time.
\<close>

theorem clockIn_status:
  assumes "clockIn st uid now shiftIn photoFileId location = (st', Inr r)"
  shows "\<exists>a. r = Some a
           \<and> st' = st\<lparr>rows := rows st @ [a], nextId := Suc (nextId st)\<rparr>
           \<and> userId a = uid \<and> date a = getJakartaDate now
           \<and> checkIn a = Some now \<and> checkOut a = None
           \<and> sessionNumber a
               = length (getAttendanceSessionsByUserAndDate st uid (getJakartaDate now)) + 1
           \<and> shift a = Some (orDefault shiftIn ''Management'')
           \<and> status a =
               (if (jakartaMinuteOfDay now > 420 \<and> shift a = Some ''Shift 1'')
                   \<or> (jakartaMinuteOfDay now > 720 \<and> shift a = Some ''Shift 2'')
                then Late else Present)"
proof -
  from clockIn_accepted [OF assms] obtain a where
    a: "r = Some a" "st' = st\<lparr>rows := rows st @ [a], nextId := Suc (nextId st)\<rparr>"
    by auto
  from clockIn_accepted [OF assms] a(1) have
    "userId a = uid" "date a = getJakartaDate now" "checkIn a = Some now" "checkOut a = None"
    "sessionNumber a = length (getAttendanceSessionsByUserAndDate st uid (getJakartaDate now)) + 1"
    "shift a = Some (orDefault shiftIn ''Management'')"
    "status a =
       (if (jakartaMinuteOfDay now > 420 \<and> shift a = Some ''Shift 1'')
           \<or> (jakartaMinuteOfDay now > 720 \<and> shift a = Some ''Shift 2'')
        then Late else Present)"
    by (auto simp: insertDefaults_def)
  with a show ?thesis by blast
qed

text \<open>
  On the empty table, user 7 clocking in on ``Shift 1'' at 06:00 Jakarta time leaves a
  table whose only row is the session sent back, with status present; at 08:00 the
  stored session is late.
\<close>

theorem clockIn_status_witness:
  "(\<exists>st' a. clockIn store0 7 (jakartaInstant 20000 6 0) (Some ''Shift 1'') None None
               = (st', Inr (Some a))
       \<and> rows st' = [a] \<and> map status (rows st') = [Present])
   \<and> (\<exists>st' a. clockIn store0 7 (jakartaInstant 20000 8 0) (Some ''Shift 1'') None None
               = (st', Inr (Some a))
       \<and> rows st' = [a] \<and> map status (rows st') = [Late])"
proof -
  have s: "getAttendanceSessionsByUserAndDate store0 u d = []" for u d
    by (simp add: getAttendanceSessionsByUserAndDate_def store0_def)
  have e: "rows store0 = []"
    by (simp add: store0_def)
  obtain st6 r6 where h6:
    "clockIn store0 7 (jakartaInstant 20000 6 0) (Some ''Shift 1'') None None = (st6, Inr r6)"
    by (simp add: clockIn_def Let_def s createAttendance_def)
  obtain st8 r8 where h8:
    "clockIn store0 7 (jakartaInstant 20000 8 0) (Some ''Shift 1'') None None = (st8, Inr r8)"
    by (simp add: clockIn_def Let_def s createAttendance_def)
  have m6: "jakartaMinuteOfDay (jakartaInstant 20000 6 0) = 360"
    by (simp add: jakartaMinuteOfDay_instant)
  have m8: "jakartaMinuteOfDay (jakartaInstant 20000 8 0) = 480"
    by (simp add: jakartaMinuteOfDay_instant)
  from clockIn_status [OF h6] m6 e obtain a6 where
    "r6 = Some a6" "rows st6 = [a6]" "status a6 = Present"
    by (auto simp: orDefault_def)
  moreover from clockIn_status [OF h8] m8 e obtain a8 where
    "r8 = Some a8" "rows st8 = [a8]" "status a8 = Late"
    by (auto simp: orDefault_def)
  ultimately show ?thesis using h6 h8 by auto
qed

text \<open>
  C6. If the table holds a row of the user and the business date whose checkOut is null,
  whatever its break columns hold, a clock-in is rejected as a session conflict and the
  table stays as it was.
\<close>

theorem clockIn_conflict:
  assumes "s \<in> set (rows st)" "userId s = uid" "date s = getJakartaDate now" "checkOut s = None"
  shows "clockIn st uid now shiftIn photoFileId location = (st, Inl SessionConflict)"
proof -
  have "s \<in> set (getAttendanceSessionsByUserAndDate st uid (getJakartaDate now))"
    using assms by (simp add: set_sessions)
  then have "find (\<lambda>s. checkOut s = None) (getAttendanceSessionsByUserAndDate st uid (getJakartaDate now)) \<noteq> None"
    using assms(4) by (auto simp: find_None_iff)
  then show ?thesis
    by (auto simp: clockIn_def Let_def)
qed

text \<open>
  The open session of user 7 with a break in progress, and the same session with no break
  started: both reject the clock-in.
\<close>

theorem clockIn_conflict_witness:
  "clockIn storeOnBreak 7 (jakartaInstant 20000 12 30) None None None = (storeOnBreak, Inl SessionConflict)
   \<and> clockIn storeOpen 7 (jakartaInstant 20000 12 30) None None None = (storeOpen, Inl SessionConflict)"
proof -
  have d: "getJakartaDate (jakartaInstant 20000 12 30) = 20000"
    by (simp add: getJakartaDate_eq jakartaHour_instant jakartaDay_instant)
  have "clockIn storeOnBreak 7 (jakartaInstant 20000 12 30) None None None = (storeOnBreak, Inl SessionConflict)"
    by (rule clockIn_conflict [where s = "openSession1\<lparr>breakStart := Some (jakartaInstant 20000 12 0)\<rparr>"])
       (simp_all add: storeOnBreak_def openSession1_def insertDefaults_def d)
  moreover have "clockIn storeOpen 7 (jakartaInstant 20000 12 30) None None None = (storeOpen, Inl SessionConflict)"
    by (rule clockIn_conflict [where s = openSession1])
       (simp_all add: storeOpen_def openSession1_def insertDefaults_def d)
  ultimately show ?thesis by simp
qed

section \<open>The example tables\<close>

lemma date_20000:
  "0 \<le> h \<Longrightarrow> h < 24 \<Longrightarrow> 0 \<le> m \<Longrightarrow> m < 60 \<Longrightarrow> 4 \<le> h
     \<Longrightarrow> getJakartaDate (jakartaInstant d h m) = d"
  by (simp add: getJakartaDate_eq jakartaHour_instant jakartaDay_instant)

lemma storeClosed_reached: "workHalfHour store0 8 = storeClosed"
  by (simp add: workHalfHour_def clockIn_def clockOut_def Let_def date_20000 store0_def
      storeClosed_def getAttendanceSessionsByUserAndDate_def createAttendance_def
      updateAttendance_def closedSession_def insertDefaults_def orDefault_def orKeep_def
      timeInMinutes_eq jakartaMinuteOfDay_instant)

lemma storeFiveClosed_reached:
  "workHalfHour (workHalfHour (workHalfHour (workHalfHour (workHalfHour store0 8) 9) 10) 11) 12
     = storeFiveClosed"
  by (simp add: workHalfHour_def clockIn_def clockOut_def Let_def date_20000 store0_def
      storeFiveClosed_def getAttendanceSessionsByUserAndDate_def createAttendance_def
      updateAttendance_def closedSession_def insertDefaults_def orDefault_def orKeep_def
      timeInMinutes_eq jakartaMinuteOfDay_instant)

lemma sessions_store0: "getAttendanceSessionsByUserAndDate store0 u d = []"
  by (simp add: getAttendanceSessionsByUserAndDate_def store0_def)

lemma sessions_storeOpen: "getAttendanceSessionsByUserAndDate storeOpen 7 20000 = [openSession1]"
  by (simp add: getAttendanceSessionsByUserAndDate_def storeOpen_def openSession1_def insertDefaults_def)

lemma sessions_storeClosed:
  "getAttendanceSessionsByUserAndDate storeClosed 7 20000 = [closedSession 1]"
  by (simp add: getAttendanceSessionsByUserAndDate_def storeClosed_def closedSession_def insertDefaults_def)

lemma sessions_storeFiveClosed:
  "getAttendanceSessionsByUserAndDate storeFiveClosed 7 20000 =
     [closedSession 1, closedSession 2, closedSession 3, closedSession 4, closedSession 5]"
  by (simp add: getAttendanceSessionsByUserAndDate_def storeFiveClosed_def closedSession_def insertDefaults_def)

lemma store_update_all: "(st::store)\<lparr>rows := x, nextId := y\<rparr> = \<lparr>rows = x, nextId = y\<rparr>"
  by (cases st) simp

lemma storeClosed_sel: "rows storeClosed = [closedSession 1]" "nextId storeClosed = 2"
  by (simp_all add: storeClosed_def)

lemma checkOut_closedSession:
  "checkOut (closedSession n) = Some (jakartaInstant 20000 (7 + int n) 30)"
  by (simp add: closedSession_def)

lemma storeFiveClosed_sel: "nextId storeFiveClosed = 6"
  by (simp add: storeFiveClosed_def)

section \<open>Resume\<close>

text \<open>
  C7, as the code has it. With no session today a resume is rejected (no attendance
  today); with an open session it is rejected (session conflict); in both cases the table
  is unchanged. Otherwise it appends one row: session number count + 1, checkIn the
  instant of the request, checkOut null, status late exactly when the Jakarta minute of
  the day exceeds 420, whatever the shift, shift ``Management'', and notes
  ``Sesi ke-N'' with N the new session number.
\<close>

theorem resume_outcomes:
  "(getAttendanceSessionsByUserAndDate st uid (getJakartaDate now) = []
      \<longrightarrow> resume st uid now = (st, Inl NoAttendanceToday))
   \<and> ((\<exists>s \<in> set (getAttendanceSessionsByUserAndDate st uid (getJakartaDate now)).
          checkOut s = None)
      \<longrightarrow> resume st uid now = (st, Inl SessionConflict))
   \<and> (getAttendanceSessionsByUserAndDate st uid (getJakartaDate now) \<noteq> []
        \<and> (\<forall>s \<in> set (getAttendanceSessionsByUserAndDate st uid (getJakartaDate now)).
              checkOut s \<noteq> None)
      \<longrightarrow> (\<exists>a. resume st uid now
                  = (st\<lparr>rows := rows st @ [a], nextId := Suc (nextId st)\<rparr>, Inr (Some a))
              \<and> userId a = uid \<and> date a = getJakartaDate now
              \<and> sessionNumber a
                  = length (getAttendanceSessionsByUserAndDate st uid (getJakartaDate now)) + 1
              \<and> checkIn a = Some now \<and> checkOut a = None
              \<and> status a = (if jakartaMinuteOfDay now > 420 then Late else Present)
              \<and> shift a = Some ''Management''
              \<and> notes' a = Some (''Sesi ke-'' @ showNat (sessionNumber a))))"
proof -
  let ?ss = "getAttendanceSessionsByUserAndDate st uid (getJakartaDate now)"
  have 1: "?ss = [] \<longrightarrow> resume st uid now = (st, Inl NoAttendanceToday)"
    by (simp add: resume_def Let_def)
  have 2: "(\<exists>s \<in> set ?ss. checkOut s = None) \<longrightarrow> resume st uid now = (st, Inl SessionConflict)"
  proof
    assume a: "\<exists>s \<in> set ?ss. checkOut s = None"
    then have ne: "?ss \<noteq> []" by auto
    from a have "find (\<lambda>s. checkOut s = None) ?ss \<noteq> None"
      by (auto simp: find_None_iff)
    with ne show "resume st uid now = (st, Inl SessionConflict)"
      by (auto simp: resume_def Let_def)
  qed
  have 3: "?ss \<noteq> [] \<and> (\<forall>s \<in> set ?ss. checkOut s \<noteq> None)
      \<longrightarrow> (\<exists>a. resume st uid now
                  = (st\<lparr>rows := rows st @ [a], nextId := Suc (nextId st)\<rparr>, Inr (Some a))
              \<and> userId a = uid \<and> date a = getJakartaDate now
              \<and> sessionNumber a = length ?ss + 1
              \<and> checkIn a = Some now \<and> checkOut a = None
              \<and> status a = (if jakartaMinuteOfDay now > 420 then Late else Present)
              \<and> shift a = Some ''Management''
              \<and> notes' a = Some (''Sesi ke-'' @ showNat (sessionNumber a)))"
  proof
    assume a: "?ss \<noteq> [] \<and> (\<forall>s \<in> set ?ss. checkOut s \<noteq> None)"
    then have f: "find (\<lambda>s. checkOut s = None) ?ss = None"
      by (simp add: find_None_iff)
    define row where "row = (insertDefaults uid (getJakartaDate now))
        \<lparr>checkIn := Some now,
         status := (if jakartaMinuteOfDay now > 420 then Late else Present),
         shift := Some ''Management'', sessionNumber := length ?ss + 1,
         notes' := Some (''Sesi ke-'' @ showNat (length ?ss + 1)),
         id' := nextId st\<rparr>"
    have "resume st uid now
            = (st\<lparr>rows := rows st @ [row], nextId := Suc (nextId st)\<rparr>, Inr (Some row))"
      using a f unfolding resume_def Let_def timeInMinutes_eq row_def
      by (simp add: createAttendance_def Let_def)
    moreover have "userId row = uid" "date row = getJakartaDate now"
      "sessionNumber row = length ?ss + 1" "checkIn row = Some now" "checkOut row = None"
      "status row = (if jakartaMinuteOfDay now > 420 then Late else Present)"
      "shift row = Some ''Management''"
      "notes' row = Some (''Sesi ke-'' @ showNat (sessionNumber row))"
      by (simp_all add: row_def insertDefaults_def)
    ultimately show "\<exists>a. resume st uid now
                  = (st\<lparr>rows := rows st @ [a], nextId := Suc (nextId st)\<rparr>, Inr (Some a))
              \<and> userId a = uid \<and> date a = getJakartaDate now
              \<and> sessionNumber a = length ?ss + 1
              \<and> checkIn a = Some now \<and> checkOut a = None
              \<and> status a = (if jakartaMinuteOfDay now > 420 then Late else Present)
              \<and> shift a = Some ''Management''
              \<and> notes' a = Some (''Sesi ke-'' @ showNat (sessionNumber a))"
      by blast
  qed
  from 1 2 3 show ?thesis by blast
qed

text \<open>
  The three cases at 10:00 on day 20000: the empty table, the table with session 1 open,
  and the table with session 1 closed, where the new session is number 2, late, with
  notes ``Sesi ke-2''.
\<close>

theorem resume_outcomes_witness:
  "resume store0 7 (jakartaInstant 20000 10 0) = (store0, Inl NoAttendanceToday)
   \<and> resume storeOpen 7 (jakartaInstant 20000 10 0) = (storeOpen, Inl SessionConflict)
   \<and> (\<exists>a. resume storeClosed 7 (jakartaInstant 20000 10 0)
             = (storeClosed\<lparr>rows := rows storeClosed @ [a], nextId := Suc (nextId storeClosed)\<rparr>,
                Inr (Some a))
          \<and> sessionNumber a = 2 \<and> checkIn a = Some (jakartaInstant 20000 10 0)
          \<and> status a = Late \<and> notes' a = Some ''Sesi ke-2'')"
proof -
  have d: "getJakartaDate (jakartaInstant 20000 10 0) = 20000"
    by (simp add: date_20000)
  have m: "jakartaMinuteOfDay (jakartaInstant 20000 10 0) = 600"
    by (simp add: jakartaMinuteOfDay_instant)
  note r0 = resume_outcomes [of store0 7 "jakartaInstant 20000 10 0", unfolded d sessions_store0]
  note r1 = resume_outcomes [of storeOpen 7 "jakartaInstant 20000 10 0", unfolded d sessions_storeOpen]
  note r2 = resume_outcomes [of storeClosed 7 "jakartaInstant 20000 10 0", unfolded d m sessions_storeClosed]
  have a: "resume store0 7 (jakartaInstant 20000 10 0) = (store0, Inl NoAttendanceToday)"
    using r0 by simp
  have b: "resume storeOpen 7 (jakartaInstant 20000 10 0) = (storeOpen, Inl SessionConflict)"
    using r1 by (simp add: openSession1_def insertDefaults_def)
  have c: "\<exists>a. resume storeClosed 7 (jakartaInstant 20000 10 0)
             = (storeClosed\<lparr>rows := rows storeClosed @ [a], nextId := Suc (nextId storeClosed)\<rparr>,
                Inr (Some a))
          \<and> sessionNumber a = 2 \<and> checkIn a = Some (jakartaInstant 20000 10 0)
          \<and> status a = Late \<and> notes' a = Some ''Sesi ke-2''"
    using r2 by (auto simp: checkOut_closedSession digitChar_def)
  from a b c show ?thesis by blast
qed

text \<open>
  The notes of the resumed session are the text ``Sesi ke-2'', not ``session 2''.
\<close>

theorem resume_notes_counterexample:
  "resume storeClosed 7 (jakartaInstant 20000 10 0)
     = (\<lparr>rows = [closedSession 1, secondSession], nextId = 3\<rparr>, Inr (Some secondSession))
   \<and> sessionNumber secondSession = 2
   \<and> notes' secondSession = Some ''Sesi ke-2''
   \<and> notes' secondSession \<noteq> Some ''session 2''"
proof -
  have "resume storeClosed 7 (jakartaInstant 20000 10 0)
     = (\<lparr>rows = [closedSession 1, secondSession], nextId = 3\<rparr>, Inr (Some secondSession))"
    by (simp add: resume_def Let_def date_20000 sessions_storeClosed checkOut_closedSession
      timeInMinutes_eq
      jakartaMinuteOfDay_instant createAttendance_def storeClosed_sel store_update_all
      secondSession_def insertDefaults_def digitChar_def)
  then show ?thesis by (simp add: secondSession_def)
qed

text \<open>
  C1 at five closed sessions. A clock-in is rejected with the session limit and leaves
  the table as it was; a resume is accepted and adds session number 6, so the day then
  has six sessions.
\<close>

theorem resume_sixth_session:
  "length (getAttendanceSessionsByUserAndDate storeFiveClosed 7 20000) = 5
   \<and> clockIn storeFiveClosed 7 (jakartaInstant 20000 14 0) None None None
       = (storeFiveClosed, Inl SessionLimitExceeded)
   \<and> resume storeFiveClosed 7 (jakartaInstant 20000 14 0)
       = (\<lparr>rows = rows storeFiveClosed @ [sixthSession], nextId = 7\<rparr>, Inr (Some sixthSession))
   \<and> sessionNumber sixthSession = 6
   \<and> length (getAttendanceSessionsByUserAndDate
        (fst (resume storeFiveClosed 7 (jakartaInstant 20000 14 0))) 7 20000) = 6"
proof -
  have a: "length (getAttendanceSessionsByUserAndDate storeFiveClosed 7 20000) = 5"
    by (simp add: sessions_storeFiveClosed)
  have c: "find (\<lambda>s. checkOut s = None) (getAttendanceSessionsByUserAndDate storeFiveClosed 7 20000) = None"
    by (simp add: sessions_storeFiveClosed checkOut_closedSession)
  have ne: "getAttendanceSessionsByUserAndDate storeFiveClosed 7 20000 \<noteq> []"
    by (simp add: sessions_storeFiveClosed)
  have b: "clockIn storeFiveClosed 7 (jakartaInstant 20000 14 0) None None None
       = (storeFiveClosed, Inl SessionLimitExceeded)"
    by (simp add: clockIn_def Let_def date_20000 a c)
  have r: "resume storeFiveClosed 7 (jakartaInstant 20000 14 0)
       = (\<lparr>rows = rows storeFiveClosed @ [sixthSession], nextId = 7\<rparr>, Inr (Some sixthSession))"
    by (simp add: resume_def Let_def date_20000 a c ne timeInMinutes_eq
      jakartaMinuteOfDay_instant createAttendance_def storeFiveClosed_sel store_update_all
      sixthSession_def insertDefaults_def digitChar_def)
  have l: "length (getAttendanceSessionsByUserAndDate
        (fst (resume storeFiveClosed 7 (jakartaInstant 20000 14 0))) 7 20000) = 6"
    unfolding r
    by (simp add: getAttendanceSessionsByUserAndDate_def storeFiveClosed_def closedSession_def
        sixthSession_def insertDefaults_def)
  show ?thesis using a b r l by (simp add: sixthSession_def)
qed

section \<open>Permit\<close>

text \<open>
  C2 at a day whose only session is closed. Session 1 was checked out at 08:30; a sick
  permit at 10:00 takes the existing-record branch and writes 10:00 over that checkOut.
\<close>

theorem permit_overwrites_checkOut:
  "checkOut (closedSession 1) = Some (jakartaInstant 20000 8 30)
   \<and> permit storeClosed 7 (jakartaInstant 20000 10 0) Sick (Some ''flu'') None
       = (\<lparr>rows = [permittedSession], nextId = 2\<rparr>, Inr (Some permittedSession))
   \<and> checkOut permittedSession = Some (jakartaInstant 20000 10 0)
   \<and> checkOut permittedSession \<noteq> checkOut (closedSession 1)"
proof -
  have "permit storeClosed 7 (jakartaInstant 20000 10 0) Sick (Some ''flu'') None
       = (\<lparr>rows = [permittedSession], nextId = 2\<rparr>, Inr (Some permittedSession))"
    by (simp add: permit_def Let_def date_20000 getAttendanceByUserAndDate_def sessions_storeClosed
      updateAttendance_def storeClosed_sel store_update_all permittedSession_def orKeep_def
      closedSession_def insertDefaults_def)
  then show ?thesis
    by (simp add: permittedSession_def closedSession_def jakartaInstant_def)
qed

section \<open>The auto-close sweep of the today handler\<close>

lemma insort_key_map:
  assumes "\<And>x. f (g x) = f x"
  shows "insort_key f (g x) (map g xs) = map g (insort_key f x xs)"
  by (induction xs) (simp_all add: assms)

lemma sort_key_map:
  assumes "\<And>x. f (g x) = f x"
  shows "sort_key f (map g xs) = map g (sort_key f xs)"
  by (induction xs) (simp_all add: insort_key_map [of f g] assms)

lemma sessions_update:
  assumes "\<And>r. userId (upd r) = userId r" "\<And>r. date (upd r) = date r"
    "\<And>r. sessionNumber (upd r) = sessionNumber r"
  shows "getAttendanceSessionsByUserAndDate (fst (updateAttendance st i upd)) u d
           = map (\<lambda>r. if id' r = i then upd r else r) (getAttendanceSessionsByUserAndDate st u d)"
proof -
  let ?g = "\<lambda>r. if id' r = i then upd r else r"
  have f: "filter (\<lambda>r. userId r = u \<and> date r = d) (map ?g xs)
             = map ?g (filter (\<lambda>r. userId r = u \<and> date r = d) xs)" for xs
    by (induction xs) (simp_all add: assms)
  have s: "sessionNumber (?g x) = sessionNumber x" for x
    by (simp add: assms)
  show ?thesis
    unfolding getAttendanceSessionsByUserAndDate_def updateAttendance_def Let_def
    by (simp add: f sort_key_map [of sessionNumber ?g, OF s])
qed

lemma setHours4_toJakartaTime:
  "setHours4 (toJakartaTime now) = jakartaInstant (jakartaDay now) 4 0 + jakartaOffsetMs"
  using ymd_toJakartaTime [of now]
  by (simp add: setHours4_def ymd_def jakartaInstant_def jakartaOffsetMs_def)

lemma today_sweep:
  assumes "getAttendanceSessionsByUserAndDate st uid (getJakartaDate now) = []"
    and "find (\<lambda>s. checkOut s = None)
           (getAttendanceSessionsByUserAndDate st uid (getJakartaDate now - 1)) = Some openSession"
    and "4 \<le> jakartaHour now"
  shows "today st uid now off =
           (fst (updateAttendance st (id' openSession)
              (\<lambda>r. r\<lparr>checkOut := Some (jakartaInstant (jakartaDay now) 4 0 + jakartaOffsetMs - off),
                      notes' := Some (autoCloseNotes (notes' openSession))\<rparr>)), [])"
proof -
  have d: "getJakartaDate now = jakartaDay now"
    using assms(3) by (simp add: getJakartaDate_eq)
  show ?thesis
    using assms unfolding today_def Let_def ymd_yesterday getHours_toJakartaTime
      setHours4_toJakartaTime d
    by simp
qed

lemma find_open_after_close:
  assumes "filter (\<lambda>s. checkOut s = None) ys = [s0]"
  shows "find (\<lambda>s. checkOut s = None)
           (map (\<lambda>r. if id' r = id' s0 then r\<lparr>checkOut := Some c, notes' := n\<rparr> else r) ys) = None"
proof -
  have "checkOut y \<noteq> None" if "y \<in> set ys" "id' y \<noteq> id' s0" for y
  proof
    assume "checkOut y = None"
    with that(1) have "y \<in> set (filter (\<lambda>s. checkOut s = None) ys)" by simp
    with assms have "y = s0" by simp
    with that(2) show False by simp
  qed
  then show ?thesis
    by (auto simp: find_None_iff)
qed

lemma store_update_rows: "(st::store)\<lparr>rows := x\<rparr> = \<lparr>rows = x, nextId = nextId st\<rparr>"
  by (cases st) simp

lemma storeStale_sel: "rows storeStale = [staleSession]" "nextId storeStale = 2"
  by (simp_all add: storeStale_def)

lemma sessions_storeStale:
  "getAttendanceSessionsByUserAndDate storeStale 7 20000 = []"
  "getAttendanceSessionsByUserAndDate storeStale 7 19999 = [staleSession]"
  by (simp_all add: getAttendanceSessionsByUserAndDate_def storeStale_def staleSession_def
      insertDefaults_def)

lemma staleSession_sel: "checkOut staleSession = None" "notes' staleSession = None"
  "id' staleSession = 1"
  by (simp_all add: staleSession_def insertDefaults_def)

lemma today_storeStale:
  "today storeStale 7 (jakartaInstant 20000 5 0) off
     = (\<lparr>rows = [staleSession\<lparr>checkOut := Some (jakartaInstant 20000 4 0 + jakartaOffsetMs - off),
                               notes' := Some ''Auto-closed at 04:00''\<rparr>],
         nextId = 2\<rparr>, [])"
proof -
  have d: "getJakartaDate (jakartaInstant 20000 5 0) = 20000"
    by (simp add: date_20000)
  have "today storeStale 7 (jakartaInstant 20000 5 0) off =
           (fst (updateAttendance storeStale (id' staleSession)
              (\<lambda>r. r\<lparr>checkOut := Some (jakartaInstant (jakartaDay (jakartaInstant 20000 5 0)) 4 0
                                          + jakartaOffsetMs - off),
                      notes' := Some (autoCloseNotes (notes' staleSession))\<rparr>)), [])"
    by (rule today_sweep) (simp_all add: d sessions_storeStale staleSession_sel jakartaHour_instant)
  then show ?thesis
    by (simp add: updateAttendance_def storeStale_sel store_update_rows staleSession_sel
        autoCloseNotes_def jakartaDay_instant)
qed

text \<open>
  Every handler keeps at most one open session per user and date: an update never
  reopens a row, and a row is created only when the day has no open session. So on a
  reachable table the open session the handlers find is the only one of its day.
\<close>

lemma length_filter_map_le:
  assumes "\<And>x. P (g x) \<Longrightarrow> P x"
  shows "length (filter P (map g xs)) \<le> length (filter P xs)"
proof (induction xs)
  case Nil
  show ?case by simp
next
  case (Cons x xs)
  show ?case
  proof (cases "P (g x)")
    case True
    with assms [of x] Cons show ?thesis by simp
  next
    case False
    with Cons show ?thesis by simp
  qed
qed

lemma openRows_update:
  assumes "\<And>r. userId (upd r) = userId r" "\<And>r. date (upd r) = date r"
    "\<And>r. checkOut (upd r) = None \<Longrightarrow> checkOut r = None"
  shows "length (openRows (fst (updateAttendance st i upd)) u d) \<le> length (openRows st u d)"
proof -
  let ?g = "\<lambda>r. if id' r = i then upd r else r"
  let ?P = "\<lambda>r. userId r = u \<and> date r = d \<and> checkOut r = None"
  have "?P x" if "?P (?g x)" for x
  proof (cases "id' x = i")
    case True
    with that have "userId (upd x) = u" "date (upd x) = d" "checkOut (upd x) = None"
      by simp_all
    then show ?thesis
      using assms(3) [of x] by (simp add: assms(1,2))
  next
    case False
    with that show ?thesis by simp
  qed
  then have "length (filter ?P (map ?g (rows st))) \<le> length (filter ?P (rows st))"
    by (rule length_filter_map_le)
  then show ?thesis
    by (simp add: openRows_def updateAttendance_def Let_def)
qed

lemma openRows_none:
  assumes "find (\<lambda>s. checkOut s = None) (getAttendanceSessionsByUserAndDate st u d) = None"
  shows "openRows st u d = []"
proof -
  have a: "\<forall>s \<in> set (getAttendanceSessionsByUserAndDate st u d). checkOut s \<noteq> None"
    using assms by (simp add: find_None_iff)
  have "\<not> (userId r = u \<and> date r = d \<and> checkOut r = None)" if "r \<in> set (rows st)" for r
  proof
    assume b: "userId r = u \<and> date r = d \<and> checkOut r = None"
    with that have "r \<in> set (getAttendanceSessionsByUserAndDate st u d)"
      by (simp add: set_sessions)
    with a b show False by blast
  qed
  then show ?thesis
    unfolding openRows_def filter_empty_conv by blast
qed

lemma openRows_append:
  assumes "openRows st (userId a) (date a) = []" "\<And>u d. length (openRows st u d) \<le> 1"
    and "rows st' = rows st @ [a]"
  shows "length (openRows st' u d) \<le> 1"
proof -
  let ?P = "\<lambda>r. userId r = u \<and> date r = d \<and> checkOut r = None"
  show ?thesis
  proof (cases "?P a")
    case True
    then have "userId a = u" "date a = d" by simp_all
    with assms(1) have "filter ?P (rows st) = []"
      by (simp add: openRows_def)
    then show ?thesis
      unfolding openRows_def assms(3) by simp
  next
    case False
    then have "filter ?P (rows st @ [a]) = filter ?P (rows st)"
      by simp
    then show ?thesis
      using assms(2) [of u d] unfolding openRows_def assms(3) by simp
  qed
qed

lemma oneOpen_update:
  assumes "\<And>u d. length (openRows st u d) \<le> 1"
    and "\<And>r. userId (upd r) = userId r" "\<And>r. date (upd r) = date r"
    and "\<And>r. checkOut (upd r) = None \<Longrightarrow> checkOut r = None"
  shows "length (openRows (fst (updateAttendance st i upd)) u d) \<le> 1"
  using openRows_update [of upd st i u d, OF assms(2-4)] assms(1) [of u d] by simp

lemma fst_case_prod: "fst (case p of (a, b) \<Rightarrow> (a, f a b)) = fst p"
  by (cases p) simp

lemma clockIn_effect:
  "fst (clockIn st uid now shiftIn photoFileId location) = st
   \<or> (find (\<lambda>s. checkOut s = None)
         (getAttendanceSessionsByUserAndDate st uid (getJakartaDate now)) = None
       \<and> (\<exists>a. userId a = uid \<and> date a = getJakartaDate now
              \<and> rows (fst (clockIn st uid now shiftIn photoFileId location)) = rows st @ [a]))"
proof (cases "find (\<lambda>s. checkOut s = None)
                (getAttendanceSessionsByUserAndDate st uid (getJakartaDate now))")
  case (Some x)
  then show ?thesis by (simp add: clockIn_def Let_def)
next
  case None
  show ?thesis
  proof (cases "length (getAttendanceSessionsByUserAndDate st uid (getJakartaDate now)) + 1 > 5")
    case True
    with None show ?thesis by (simp add: clockIn_def Let_def)
  next
    case False
    have "\<exists>a. userId a = uid \<and> date a = getJakartaDate now
              \<and> rows (fst (createAttendance st r)) = rows st @ [a]"
      if "userId r = uid" "date r = getJakartaDate now" for r
      using that by (simp add: createAttendance_def Let_def)
    then have "\<exists>a. userId a = uid \<and> date a = getJakartaDate now
              \<and> rows (fst (clockIn st uid now shiftIn photoFileId location)) = rows st @ [a]"
      using None False unfolding clockIn_def Let_def
      by (simp add: fst_case_prod insertDefaults_def)
    with None show ?thesis by simp
  qed
qed

lemma resume_effect:
  "fst (resume st uid now) = st
   \<or> (find (\<lambda>s. checkOut s = None)
         (getAttendanceSessionsByUserAndDate st uid (getJakartaDate now)) = None
       \<and> (\<exists>a. userId a = uid \<and> date a = getJakartaDate now
              \<and> rows (fst (resume st uid now)) = rows st @ [a]))"
proof (cases "find (\<lambda>s. checkOut s = None)
                (getAttendanceSessionsByUserAndDate st uid (getJakartaDate now))")
  case (Some x)
  then show ?thesis by (simp add: resume_def Let_def)
next
  case None
  show ?thesis
  proof (cases "getAttendanceSessionsByUserAndDate st uid (getJakartaDate now) = []")
    case True
    then show ?thesis by (simp add: resume_def Let_def)
  next
    case False
    have "\<exists>a. userId a = uid \<and> date a = getJakartaDate now
              \<and> rows (fst (createAttendance st r)) = rows st @ [a]"
      if "userId r = uid" "date r = getJakartaDate now" for r
      using that by (simp add: createAttendance_def Let_def)
    then have "\<exists>a. userId a = uid \<and> date a = getJakartaDate now
              \<and> rows (fst (resume st uid now)) = rows st @ [a]"
      using None False unfolding resume_def Let_def
      by (simp add: fst_case_prod insertDefaults_def)
    with None show ?thesis by simp
  qed
qed

lemma oneOpen_clockIn:
  assumes "\<And>u d. length (openRows st u d) \<le> 1"
  shows "length (openRows (fst (clockIn st uid now shiftIn photoFileId location)) u d) \<le> 1"
  using clockIn_effect [of st uid now shiftIn photoFileId location]
proof
  assume "fst (clockIn st uid now shiftIn photoFileId location) = st"
  then show ?thesis using assms by simp
next
  assume "find (\<lambda>s. checkOut s = None)
         (getAttendanceSessionsByUserAndDate st uid (getJakartaDate now)) = None
       \<and> (\<exists>a. userId a = uid \<and> date a = getJakartaDate now
              \<and> rows (fst (clockIn st uid now shiftIn photoFileId location)) = rows st @ [a])"
  then obtain a where f: "find (\<lambda>s. checkOut s = None)
         (getAttendanceSessionsByUserAndDate st uid (getJakartaDate now)) = None"
    and a: "userId a = uid" "date a = getJakartaDate now"
    and r: "rows (fst (clockIn st uid now shiftIn photoFileId location)) = rows st @ [a]"
    by blast
  from openRows_none [OF f] a have n: "openRows st (userId a) (date a) = []"
    by simp
  from n assms r show ?thesis by (rule openRows_append)
qed

lemma oneOpen_resume:
  assumes "\<And>u d. length (openRows st u d) \<le> 1"
  shows "length (openRows (fst (resume st uid now)) u d) \<le> 1"
  using resume_effect [of st uid now]
proof
  assume "fst (resume st uid now) = st"
  then show ?thesis using assms by simp
next
  assume "find (\<lambda>s. checkOut s = None)
         (getAttendanceSessionsByUserAndDate st uid (getJakartaDate now)) = None
       \<and> (\<exists>a. userId a = uid \<and> date a = getJakartaDate now
              \<and> rows (fst (resume st uid now)) = rows st @ [a])"
  then obtain a where f: "find (\<lambda>s. checkOut s = None)
         (getAttendanceSessionsByUserAndDate st uid (getJakartaDate now)) = None"
    and a: "userId a = uid" "date a = getJakartaDate now"
    and r: "rows (fst (resume st uid now)) = rows st @ [a]"
    by blast
  from openRows_none [OF f] a have n: "openRows st (userId a) (date a) = []"
    by simp
  from n assms r show ?thesis by (rule openRows_append)
qed

lemma oneOpen_permit:
  assumes "\<And>u d. length (openRows st u d) \<le> 1"
  shows "length (openRows (fst (permit st uid now type notesIn photoFileId)) u d) \<le> 1"
proof (cases "getAttendanceByUserAndDate st uid (getJakartaDate now)")
  case None
  then have "getAttendanceSessionsByUserAndDate st uid (getJakartaDate now) = []"
    by (simp add: getAttendanceByUserAndDate_def split: list.splits)
  then have "find (\<lambda>s. checkOut s = None)
                (getAttendanceSessionsByUserAndDate st uid (getJakartaDate now)) = None"
    by simp
  then have n: "openRows st uid (getJakartaDate now) = []"
    by (rule openRows_none)
  let ?a = "(insertDefaults uid (getJakartaDate now))
              \<lparr>status := type, notes' := notesIn, checkInPhoto := photoFileId,
               checkIn := Some now, id' := nextId st\<rparr>"
  have r: "rows (fst (permit st uid now type notesIn photoFileId)) = rows st @ [?a]"
    unfolding permit_def Let_def None option.case fst_case_prod
    by (simp add: createAttendance_def Let_def)
  have "openRows st (userId ?a) (date ?a) = []"
    using n by (simp add: insertDefaults_def)
  from this assms r show ?thesis by (rule openRows_append)
next
  case (Some existing)
  show ?thesis
    unfolding permit_def Let_def Some option.case fst_case_prod
    by (rule oneOpen_update [OF assms]) simp_all
qed

lemma oneOpen_clockOut:
  assumes "\<And>u d. length (openRows st u d) \<le> 1"
  shows "length (openRows (fst (clockOut st uid now photoFileId location)) u d) \<le> 1"
proof (cases "find (\<lambda>s. checkOut s = None)
                (getAttendanceSessionsByUserAndDate st uid (getJakartaDate now))")
  case None
  then show ?thesis using assms by (simp add: clockOut_def Let_def)
next
  case (Some existing)
  show ?thesis
    unfolding clockOut_def Let_def Some option.case fst_case_prod
    by (rule oneOpen_update [OF assms]) simp_all
qed

lemma oneOpen_breakStartH:
  assumes "\<And>u d. length (openRows st u d) \<le> 1"
  shows "length (openRows (fst (breakStartH st uid now photoFileId location)) u d) \<le> 1"
proof (cases "find (\<lambda>s. checkOut s = None)
                (getAttendanceSessionsByUserAndDate st uid (getJakartaDate now))")
  case None
  then show ?thesis using assms by (simp add: breakStartH_def Let_def)
next
  case (Some existing)
  show ?thesis
    unfolding breakStartH_def Let_def Some option.case fst_case_prod
    by (rule oneOpen_update [OF assms]) simp_all
qed

lemma oneOpen_breakEndH:
  assumes "\<And>u d. length (openRows st u d) \<le> 1"
  shows "length (openRows (fst (breakEndH st uid now photoFileId location)) u d) \<le> 1"
proof (cases "find (\<lambda>s. checkOut s = None)
                (getAttendanceSessionsByUserAndDate st uid (getJakartaDate now))")
  case None
  then show ?thesis using assms by (simp add: breakEndH_def Let_def)
next
  case (Some existing)
  show ?thesis
    unfolding breakEndH_def Let_def Some option.case fst_case_prod
    by (rule oneOpen_update [OF assms]) simp_all
qed

lemma oneOpen_today:
  assumes "\<And>u d. length (openRows st u d) \<le> 1"
  shows "length (openRows (fst (today st uid now serverOffsetMs)) u d) \<le> 1"
proof -
  have "fst (today st uid now serverOffsetMs) = st
        \<or> (\<exists>i c n. fst (today st uid now serverOffsetMs)
               = fst (updateAttendance st i (\<lambda>r. r\<lparr>checkOut := Some c, notes' := n\<rparr>)))"
    by (simp add: today_def Let_def split: option.splits) blast
  then show ?thesis
  proof
    assume "fst (today st uid now serverOffsetMs) = st"
    then show ?thesis using assms by simp
  next
    assume "\<exists>i c n. fst (today st uid now serverOffsetMs)
               = fst (updateAttendance st i (\<lambda>r. r\<lparr>checkOut := Some c, notes' := n\<rparr>))"
    then obtain i c n where e: "fst (today st uid now serverOffsetMs)
               = fst (updateAttendance st i (\<lambda>r. r\<lparr>checkOut := Some c, notes' := n\<rparr>))"
      by blast
    show ?thesis
      unfolding e by (rule oneOpen_update [OF assms]) simp_all
  qed
qed

lemma reachable_oneOpen:
  assumes "reachable st"
  shows "length (openRows st u d) \<le> 1"
  using assms
proof (induction arbitrary: u d)
  case (initial n)
  show ?case by (simp add: openRows_def)
next
  case (afterClockIn st uid now shiftIn photoFileId location)
  show ?case by (rule oneOpen_clockIn) (rule afterClockIn.IH)
next
  case (afterClockOut st uid now photoFileId location)
  show ?case by (rule oneOpen_clockOut) (rule afterClockOut.IH)
next
  case (afterBreakStart st uid now photoFileId location)
  show ?case by (rule oneOpen_breakStartH) (rule afterBreakStart.IH)
next
  case (afterBreakEnd st uid now photoFileId location)
  show ?case by (rule oneOpen_breakEndH) (rule afterBreakEnd.IH)
next
  case (afterPermit st uid now type notesIn photoFileId)
  show ?case by (rule oneOpen_permit) (rule afterPermit.IH)
next
  case (afterResume st uid now)
  show ?case by (rule oneOpen_resume) (rule afterResume.IH)
next
  case (afterToday st uid now serverOffsetMs)
  show ?case by (rule oneOpen_today) (rule afterToday.IH)
qed

lemma find_filter_Cons:
  "find P xs = Some x \<Longrightarrow> \<exists>rest. filter P xs = x # rest"
proof (induction xs)
  case Nil
  then show ?case by simp
next
  case (Cons y ys)
  show ?case
  proof (cases "P y")
    case True
    with Cons.prems show ?thesis by simp
  next
    case False
    with Cons show ?thesis by simp
  qed
qed

lemma length_filter_sort_key: "length (filter P (sort_key f xs)) = length (filter P xs)"
proof -
  have "mset (filter P (sort_key f xs)) = mset (filter P xs)"
    by simp
  then have "size (mset (filter P (sort_key f xs))) = size (mset (filter P xs))"
    by (rule arg_cong)
  then show ?thesis
    by (simp only: size_mset)
qed

lemma reachable_only_open:
  assumes "reachable st"
    and "find (\<lambda>s. checkOut s = None) (getAttendanceSessionsByUserAndDate st u d) = Some e"
  shows "filter (\<lambda>s. checkOut s = None) (getAttendanceSessionsByUserAndDate st u d) = [e]"
proof -
  have "filter (\<lambda>s. checkOut s = None) (filter (\<lambda>r. userId r = u \<and> date r = d) (rows st))
          = openRows st u d"
    unfolding openRows_def filter_filter by (rule filter_cong) auto
  then have "length (filter (\<lambda>s. checkOut s = None) (getAttendanceSessionsByUserAndDate st u d))
          = length (openRows st u d)"
    by (simp only: getAttendanceSessionsByUserAndDate_def length_filter_sort_key)
  then have "length (filter (\<lambda>s. checkOut s = None) (getAttendanceSessionsByUserAndDate st u d)) \<le> 1"
    using reachable_oneOpen [OF assms(1), of u d] by simp
  moreover obtain rest where
    "filter (\<lambda>s. checkOut s = None) (getAttendanceSessionsByUserAndDate st u d) = e # rest"
    using find_filter_Cons [OF assms(2)] by blast
  ultimately show ?thesis by simp
qed

lemma reachable_storeStale: "reachable storeStale"
proof -
  have "fst (clockIn \<lparr>rows = [], nextId = 1\<rparr> 7 (jakartaInstant 19999 20 0) None None None)
          = storeStale"
    by (simp add: clockIn_def Let_def date_20000 storeStale_def staleSession_def
        getAttendanceSessionsByUserAndDate_def createAttendance_def insertDefaults_def
        orDefault_def timeInMinutes_eq jakartaMinuteOfDay_instant)
  then show ?thesis
    using afterClockIn [OF initial [of 1], of 7 "jakartaInstant 19999 20 0" None None None]
    by simp
qed

lemma today_again:
  assumes noToday: "getAttendanceSessionsByUserAndDate st uid (getJakartaDate now) = []"
    and openY: "find (\<lambda>s. checkOut s = None)
           (getAttendanceSessionsByUserAndDate st uid (getJakartaDate now - 1)) = Some openSession"
    and hour: "4 \<le> jakartaHour now"
    and only: "filter (\<lambda>s. checkOut s = None)
           (getAttendanceSessionsByUserAndDate st uid (getJakartaDate now - 1)) = [openSession]"
    and same: "jakartaDay now2 = jakartaDay now"
  shows "fst (today (fst (today st uid now off)) uid now2 off2) = fst (today st uid now off)"
proof -
  let ?c = "jakartaInstant (jakartaDay now) 4 0 + jakartaOffsetMs - off"
  let ?n = "Some (autoCloseNotes (notes' openSession))"
  let ?upd = "\<lambda>r. r\<lparr>checkOut := Some ?c, notes' := ?n\<rparr>"
  let ?g = "\<lambda>r. if id' r = id' openSession then ?upd r else r"
  let ?st1 = "fst (updateAttendance st (id' openSession) ?upd)"
  let ?ys = "getAttendanceSessionsByUserAndDate st uid (getJakartaDate now - 1)"
  have d: "getJakartaDate now = jakartaDay now"
    using hour by (simp add: getJakartaDate_eq)
  have st1: "fst (today st uid now off) = ?st1"
    by (simp add: today_sweep [OF noToday openY hour])
  have ss: "getAttendanceSessionsByUserAndDate ?st1 u e
              = map ?g (getAttendanceSessionsByUserAndDate st u e)" for u e
    by (rule sessions_update) simp_all
  have ne: "?ys \<noteq> []"
    using openY by auto
  have closed: "find (\<lambda>s. checkOut s = None) (map ?g ?ys) = None"
    using only by (simp add: find_open_after_close)
  have "fst (today ?st1 uid now2 off2) = ?st1"
  proof (cases "jakartaHour now2 < 4")
    case True
    then have "getJakartaDate now2 = getJakartaDate now - 1"
      using same by (simp add: getJakartaDate_eq [of now2] d)
    then show ?thesis
      using ne unfolding today_def Let_def by (simp add: ss)
  next
    case False
    then have "getJakartaDate now2 = getJakartaDate now"
      using same by (simp add: getJakartaDate_eq [of now2] d)
    moreover have "ymd (now2 - 86400000 + jakartaOffsetMs) = getJakartaDate now - 1"
      using same by (simp add: ymd_yesterday d)
    ultimately show ?thesis
      using closed noToday unfolding today_def Let_def by (simp add: ss)
  qed
  then show ?thesis
    by (simp add: st1)
qed

text \<open>
  C3, as the code has it. Let the user have no session on the current business date, let
  \<open>openSession\<close> be the open session of the business date before it that the handler
  finds, and let the Jakarta local hour be at least 4. Whatever the server's time zone,
  today() then returns the empty list and closes that session: on the rows of its id
  checkOut becomes non-null (which instant is written is not part of this statement) and
  notes become the old notes followed by `` (Auto-closed at 04:00)'', or the text
  ``Auto-closed at 04:00'' when there were none; every other row stays as it was. On
  every table the handlers produce, a further today() on the same Jakarta calendar day
  leaves the table as the first call left it.
\<close>

theorem today_autoClose:
  assumes noToday: "getAttendanceSessionsByUserAndDate st uid (getJakartaDate now) = []"
    and openY: "find (\<lambda>s. checkOut s = None)
           (getAttendanceSessionsByUserAndDate st uid (getJakartaDate now - 1)) = Some openSession"
    and hour: "4 \<le> jakartaHour now"
  shows "(\<exists>c. today st uid now serverOffsetMs =
           (st\<lparr>rows := map (\<lambda>r. if id' r = id' openSession
                       then r\<lparr>checkOut := Some c,
                              notes' := Some (case notes' openSession of
                                   None \<Rightarrow> ''Auto-closed at 04:00''
                                 | Some v \<Rightarrow> if v = [] then ''Auto-closed at 04:00''
                                            else v @ '' (Auto-closed at 04:00)'')\<rparr>
                       else r) (rows st)\<rparr>, []))
         \<and> (reachable st \<and> jakartaDay now2 = jakartaDay now
            \<longrightarrow> fst (today (fst (today st uid now serverOffsetMs)) uid now2 off2)
                  = fst (today st uid now serverOffsetMs))"
proof
  have "today st uid now serverOffsetMs =
           (st\<lparr>rows := map (\<lambda>r. if id' r = id' openSession
                       then r\<lparr>checkOut := Some (jakartaInstant (jakartaDay now) 4 0
                                                    + jakartaOffsetMs - serverOffsetMs),
                              notes' := Some (case notes' openSession of
                                   None \<Rightarrow> ''Auto-closed at 04:00''
                                 | Some v \<Rightarrow> if v = [] then ''Auto-closed at 04:00''
                                            else v @ '' (Auto-closed at 04:00)'')\<rparr>
                       else r) (rows st)\<rparr>, [])"
    unfolding today_sweep [OF noToday openY hour]
    by (simp add: updateAttendance_def autoCloseNotes_def)
  then show "\<exists>c. today st uid now serverOffsetMs =
           (st\<lparr>rows := map (\<lambda>r. if id' r = id' openSession
                       then r\<lparr>checkOut := Some c,
                              notes' := Some (case notes' openSession of
                                   None \<Rightarrow> ''Auto-closed at 04:00''
                                 | Some v \<Rightarrow> if v = [] then ''Auto-closed at 04:00''
                                            else v @ '' (Auto-closed at 04:00)'')\<rparr>
                       else r) (rows st)\<rparr>, [])"
    by blast
next
  show "reachable st \<and> jakartaDay now2 = jakartaDay now
          \<longrightarrow> fst (today (fst (today st uid now serverOffsetMs)) uid now2 off2)
                = fst (today st uid now serverOffsetMs)"
  proof
    assume a: "reachable st \<and> jakartaDay now2 = jakartaDay now"
    then have "filter (\<lambda>s. checkOut s = None)
           (getAttendanceSessionsByUserAndDate st uid (getJakartaDate now - 1)) = [openSession]"
      using reachable_only_open [OF _ openY] by blast
    with a show "fst (today (fst (today st uid now serverOffsetMs)) uid now2 off2)
                   = fst (today st uid now serverOffsetMs)"
      by (intro today_again [OF noToday openY hour]) simp_all
  qed
qed

text \<open>
  The session left open at 20:00 on day 19999 is in a table the handlers produce. On a
  server in UTC it is swept at 05:00 Jakarta time on day 20000, and asking again at 05:10
  changes nothing.
\<close>

theorem today_autoClose_witness:
  "reachable storeStale
   \<and> (\<exists>c. today storeStale 7 (jakartaInstant 20000 5 0) 0
          = (\<lparr>rows = [staleSession\<lparr>checkOut := Some c,
                                    notes' := Some ''Auto-closed at 04:00''\<rparr>],
              nextId = 2\<rparr>, []))
   \<and> fst (today (fst (today storeStale 7 (jakartaInstant 20000 5 0) 0)) 7
            (jakartaInstant 20000 5 10) 0)
       = fst (today storeStale 7 (jakartaInstant 20000 5 0) 0)"
proof -
  have d: "getJakartaDate (jakartaInstant 20000 5 0) = 20000"
    by (simp add: date_20000)
  have h1: "getAttendanceSessionsByUserAndDate storeStale 7 (getJakartaDate (jakartaInstant 20000 5 0)) = []"
    by (simp add: d sessions_storeStale)
  have h2: "find (\<lambda>s. checkOut s = None)
           (getAttendanceSessionsByUserAndDate storeStale 7 (getJakartaDate (jakartaInstant 20000 5 0) - 1))
            = Some staleSession"
    by (simp add: d sessions_storeStale staleSession_sel)
  have h3: "4 \<le> jakartaHour (jakartaInstant 20000 5 0)"
    by (simp add: jakartaHour_instant)
  have h5: "jakartaDay (jakartaInstant 20000 5 10) = jakartaDay (jakartaInstant 20000 5 0)"
    by (simp add: jakartaDay_instant)
  note t = today_autoClose [OF h1 h2 h3, of 0 "jakartaInstant 20000 5 10" 0]
  from t have "\<exists>c. today storeStale 7 (jakartaInstant 20000 5 0) 0
          = (\<lparr>rows = [staleSession\<lparr>checkOut := Some c,
                                    notes' := Some ''Auto-closed at 04:00''\<rparr>],
              nextId = 2\<rparr>, [])"
    by (simp add: storeStale_sel store_update_rows staleSession_sel)
  moreover from t reachable_storeStale h5
  have "fst (today (fst (today storeStale 7 (jakartaInstant 20000 5 0) 0)) 7
            (jakartaInstant 20000 5 10) 0)
       = fst (today storeStale 7 (jakartaInstant 20000 5 0) 0)"
    by blast
  ultimately show ?thesis
    using reachable_storeStale by blast
qed

text \<open>
  Where the claim as worded fails. The session without notes gets the notes
  ``Auto-closed at 04:00'', without parentheses. On a server whose zone is UTC the
  checkOut written is 04:00 UTC, which is 11:00 Jakarta time.
\<close>

theorem today_autoClose_counterexample:
  "today storeStale 7 (jakartaInstant 20000 5 0) jakartaOffsetMs
     = (\<lparr>rows = [staleSession\<lparr>checkOut := Some (jakartaInstant 20000 4 0),
                               notes' := Some ''Auto-closed at 04:00''\<rparr>],
         nextId = 2\<rparr>, [])
   \<and> ''Auto-closed at 04:00'' \<noteq> ''(Auto-closed at 04:00)''
   \<and> today storeStale 7 (jakartaInstant 20000 5 0) 0
     = (\<lparr>rows = [staleSession\<lparr>checkOut := Some (jakartaInstant 20000 11 0),
                               notes' := Some ''Auto-closed at 04:00''\<rparr>],
         nextId = 2\<rparr>, [])
   \<and> jakartaInstant 20000 11 0 \<noteq> jakartaInstant 20000 4 0"
proof -
  have "jakartaInstant 20000 4 0 + jakartaOffsetMs - 0 = jakartaInstant 20000 11 0"
    by (simp add: jakartaInstant_def jakartaOffsetMs_def)
  then show ?thesis
    using today_storeStale [of jakartaOffsetMs] today_storeStale [of 0]
    by (simp add: jakartaInstant_def)
qed

section \<open>The duration aggregator\<close>

lemma recordStep_acc:
  "fst (recordStep r acc) = fst acc + fst (recordStep r (0, 0))"
  "snd (recordStep r acc) = snd acc + snd (recordStep r (0, 0))"
  by (simp_all add: recordStep_def Let_def)

lemma fold_recordStep:
  "fold recordStep rs acc =
     (fst acc + sum_list (map (\<lambda>r. fst (recordStep r (0, 0))) rs),
      snd acc + sum_list (map (\<lambda>r. snd (recordStep r (0, 0))) rs))"
proof (induction rs arbitrary: acc)
  case Nil
  show ?case by simp
next
  case (Cons r rs)
  have "fold recordStep (r # rs) acc = fold recordStep rs (recordStep r acc)"
    by simp
  also have "\<dots> =
     (fst (recordStep r acc) + sum_list (map (\<lambda>r. fst (recordStep r (0, 0))) rs),
      snd (recordStep r acc) + sum_list (map (\<lambda>r. snd (recordStep r (0, 0))) rs))"
    by (rule Cons.IH)
  also have "\<dots> =
     (fst acc + sum_list (map (\<lambda>r. fst (recordStep r (0, 0))) (r # rs)),
      snd acc + sum_list (map (\<lambda>r. snd (recordStep r (0, 0))) (r # rs)))"
    by (simp add: recordStep_acc [of r acc])
  finally show ?case .
qed

lemma recordStep_work: "fst (recordStep r (0, 0)) = specSessionWork r"
  by (auto simp: recordStep_def specSessionWork_def calculateDuration_def Let_def
      split: option.splits)

lemma recordStep_break: "snd (recordStep r (0, 0)) = specSessionBreak r"
  by (auto simp: recordStep_def specSessionBreak_def calculateDuration_def Let_def
      split: option.splits)

lemma differenceInMinutes_multiple: "differenceInMinutes (a + k * 60000) a = k"
proof -
  have "- (k * 60000) = (- k) * 60000"
    by simp
  then have "- (k * 60000) div 60000 = - k"
    by (simp only: nonzero_mult_div_cancel_right)
  then show ?thesis
    by (simp add: differenceInMinutes_def Let_def)
qed

lemma differenceInMinutes_instants:
  "differenceInMinutes (jakartaInstant d h2 m2) (jakartaInstant d h1 m1)
     = (h2 - h1) * 60 + (m2 - m1)"
proof -
  have "jakartaInstant d h2 m2
          = jakartaInstant d h1 m1 + ((h2 - h1) * 60 + (m2 - m1)) * 60000"
    by (simp add: jakartaInstant_def algebra_simps)
  then show ?thesis
    by (simp only: differenceInMinutes_multiple)
qed

lemma differenceInMinutes_aligned:
  assumes "a mod 60000 = 0" "b mod 60000 = 0"
  shows "differenceInMinutes b a = b div 60000 - a div 60000"
proof -
  have "b = a + (b div 60000 - a div 60000) * 60000"
    using assms by (simp add: algebra_simps mod_eq_0_iff_dvd)
  then show ?thesis
    by (metis differenceInMinutes_multiple)
qed

text \<open>
  C8. For every list of sessions, \<open>calculateDailyTotal\<close> returns what the specification
  describes: per session the minutes from checkIn to checkOut, 0 when either is absent,
  less the permit interval and floored at 0 when both permit timestamps are set; break
  minutes likewise from breakStart and breakEnd; both summed over the sessions; net work
  their difference floored at 0. The minutes between two timestamps are the full
  minutes date-fns counts (\<open>differenceInMinutes_aligned\<close>: on timestamps that fall on
  whole minutes, the difference of their minute counts). The session 09:00 to 17:00 with
  a break from 12:00 to 13:00 gives 480, 60 and 420. The function is total.
\<close>

theorem calculateDailyTotal_spec:
  "calculateDailyTotal records = specAggregate records
   \<and> calculateDailyTotal [scenarioSession]
       = \<lparr>totalWorkMins = 480, totalBreakMins = 60, netWorkMins = 420\<rparr>"
proof
  show g: "calculateDailyTotal records = specAggregate records" for records
    by (simp add: calculateDailyTotal_def specAggregate_def fold_recordStep
        recordStep_work recordStep_break)
  show "calculateDailyTotal [scenarioSession]
       = \<lparr>totalWorkMins = 480, totalBreakMins = 60, netWorkMins = 420\<rparr>"
    by (simp add: g specAggregate_def specSessionWork_def specSessionBreak_def
        scenarioSession_def insertDefaults_def differenceInMinutes_instants)
qed

text \<open>
  C9. The result depends only on the multiset of sessions: every permutation of a list
  gives the same three totals. The aggregator is a function of the list alone, so applying
  it again to the same list gives the same result (the case \<open>ys = xs\<close>).
\<close>

theorem calculateDailyTotal_permutation:
  assumes "mset xs = mset ys"
  shows "calculateDailyTotal xs = calculateDailyTotal ys"
proof -
  have "sum_list (map f xs) = sum_list (map f ys)" for f :: "attendance \<Rightarrow> int"
  proof -
    have "sum_mset (image_mset f (mset xs)) = sum_mset (image_mset f (mset ys))"
      using assms by simp
    then show ?thesis
      by (simp add: sum_mset_sum_list [symmetric] del: sum_mset_sum_list)
  qed
  then show ?thesis
    by (simp add: calculateDailyTotal_def fold_recordStep)
qed

text \<open>
  The scenario session and a half-hour session, in both orders: 510, 60 and 450.
\<close>

theorem calculateDailyTotal_permutation_witness:
  "mset [scenarioSession, closedSession 1] = mset [closedSession 1, scenarioSession]
   \<and> calculateDailyTotal [scenarioSession, closedSession 1]
       = calculateDailyTotal [closedSession 1, scenarioSession]
   \<and> calculateDailyTotal [scenarioSession, closedSession 1]
       = \<lparr>totalWorkMins = 510, totalBreakMins = 60, netWorkMins = 450\<rparr>"
proof -
  have m: "mset [scenarioSession, closedSession 1] = mset [closedSession 1, scenarioSession]"
    by (simp add: add_mset_commute)
  have "calculateDailyTotal [scenarioSession, closedSession 1]
       = \<lparr>totalWorkMins = 510, totalBreakMins = 60, netWorkMins = 450\<rparr>"
    by (simp add: calculateDailyTotal_def fold_recordStep recordStep_def calculateDuration_def
        Let_def scenarioSession_def closedSession_def insertDefaults_def differenceInMinutes_instants)
  with m calculateDailyTotal_permutation [OF m] show ?thesis by simp
qed

section \<open>Break start and break end\<close>

lemma find_map_same:
  assumes "\<And>x. P (g x) = P x"
  shows "find P (map g xs) = map_option g (find P xs)"
  by (induction xs) (simp_all add: assms)

lemma find_open_in_rows:
  assumes "find (\<lambda>s. checkOut s = None) (getAttendanceSessionsByUserAndDate st u d) = Some e"
  shows "e \<in> set (rows st)" "userId e = u" "date e = d" "checkOut e = None"
proof -
  from assms have "e \<in> set (getAttendanceSessionsByUserAndDate st u d) \<and> checkOut e = None"
    by (auto simp: find_Some_iff)
  then show "e \<in> set (rows st)" "userId e = u" "date e = d" "checkOut e = None"
    by (simp_all add: set_sessions)
qed

lemma updateAttendance_found:
  assumes "e \<in> set (rows st)" "\<And>r. id' (upd r) = id' r"
  shows "\<exists>r0 \<in> set (rows st). id' r0 = id' e \<and>
           updateAttendance st (id' e) upd
             = (st\<lparr>rows := map (\<lambda>r. if id' r = id' e then upd r else r) (rows st)\<rparr>,
                Some (upd r0))"
proof -
  let ?g = "\<lambda>r. if id' r = id' e then upd r else r"
  have "find (\<lambda>r. id' r = id' e) (map ?g (rows st)) = map_option ?g (find (\<lambda>r. id' r = id' e) (rows st))"
    by (rule find_map_same) (simp add: assms(2))
  moreover obtain r0 where r0: "find (\<lambda>r. id' r = id' e) (rows st) = Some r0"
    using assms(1) by (cases "find (\<lambda>r. id' r = id' e) (rows st)") (auto simp: find_None_iff)
  moreover from r0 have "r0 \<in> set (rows st)" "id' r0 = id' e"
    by (auto simp: find_Some_iff)
  ultimately show ?thesis
    by (auto simp: updateAttendance_def Let_def)
qed

lemma breakEndH_open:
  assumes "find (\<lambda>s. checkOut s = None)
             (getAttendanceSessionsByUserAndDate st uid (getJakartaDate now)) = Some e"
  shows "\<exists>r0 \<in> set (rows st). id' r0 = id' e \<and>
           breakEndH st uid now photoFileId location
             = (st\<lparr>rows := map (\<lambda>r. if id' r = id' e
                           then r\<lparr>breakEnd := Some now,
                                  breakEndPhoto := orKeep photoFileId (breakEndPhoto r),
                                  breakEndLocation := orKeep location (breakEndLocation r)\<rparr>
                           else r) (rows st)\<rparr>,
                Inr (Some (r0\<lparr>breakEnd := Some now,
                                 breakEndPhoto := orKeep photoFileId (breakEndPhoto r0),
                                 breakEndLocation := orKeep location (breakEndLocation r0)\<rparr>)))"
proof -
  let ?upd = "\<lambda>r. r\<lparr>breakEnd := Some now,
                       breakEndPhoto := orKeep photoFileId (breakEndPhoto r),
                       breakEndLocation := orKeep location (breakEndLocation r)\<rparr>"
  have "e \<in> set (rows st)"
    using assms by (rule find_open_in_rows)
  then obtain r0 where "r0 \<in> set (rows st)" "id' r0 = id' e"
    "updateAttendance st (id' e) ?upd
       = (st\<lparr>rows := map (\<lambda>r. if id' r = id' e then ?upd r else r) (rows st)\<rparr>, Some (?upd r0))"
    using updateAttendance_found [of e st ?upd] by auto
  then show ?thesis
    using assms by (auto simp: breakEndH_def Let_def)
qed

lemma breakStartH_open:
  assumes "find (\<lambda>s. checkOut s = None)
             (getAttendanceSessionsByUserAndDate st uid (getJakartaDate now)) = Some e"
  shows "\<exists>r0 \<in> set (rows st). id' r0 = id' e \<and>
           breakStartH st uid now photoFileId location
             = (st\<lparr>rows := map (\<lambda>r. if id' r = id' e
                           then r\<lparr>breakStart := Some now,
                                  breakStartPhoto := orKeep photoFileId (breakStartPhoto r),
                                  breakStartLocation := orKeep location (breakStartLocation r)\<rparr>
                           else r) (rows st)\<rparr>,
                Inr (Some (r0\<lparr>breakStart := Some now,
                                 breakStartPhoto := orKeep photoFileId (breakStartPhoto r0),
                                 breakStartLocation := orKeep location (breakStartLocation r0)\<rparr>)))"
proof -
  let ?upd = "\<lambda>r. r\<lparr>breakStart := Some now,
                       breakStartPhoto := orKeep photoFileId (breakStartPhoto r),
                       breakStartLocation := orKeep location (breakStartLocation r)\<rparr>"
  have "e \<in> set (rows st)"
    using assms by (rule find_open_in_rows)
  then obtain r0 where "r0 \<in> set (rows st)" "id' r0 = id' e"
    "updateAttendance st (id' e) ?upd
       = (st\<lparr>rows := map (\<lambda>r. if id' r = id' e then ?upd r else r) (rows st)\<rparr>, Some (?upd r0))"
    using updateAttendance_found [of e st ?upd] by auto
  then show ?thesis
    using assms by (auto simp: breakStartH_def Let_def)
qed

lemma breakStartH_keeps_open:
  assumes "find (\<lambda>s. checkOut s = None)
             (getAttendanceSessionsByUserAndDate st uid (getJakartaDate now)) = Some e"
  shows "\<exists>e'. find (\<lambda>s. checkOut s = None)
             (getAttendanceSessionsByUserAndDate (fst (breakStartH st uid now p l)) uid
                (getJakartaDate now)) = Some e' \<and> id' e' = id' e"
proof -
  let ?upd = "\<lambda>r. r\<lparr>breakStart := Some now,
                       breakStartPhoto := orKeep p (breakStartPhoto r),
                       breakStartLocation := orKeep l (breakStartLocation r)\<rparr>"
  let ?g = "\<lambda>r. if id' r = id' e then ?upd r else r"
  have st1: "fst (breakStartH st uid now p l) = fst (updateAttendance st (id' e) ?upd)"
    using assms by (simp add: breakStartH_def Let_def split: prod.splits)
  have ss: "getAttendanceSessionsByUserAndDate (fst (updateAttendance st (id' e) ?upd)) uid d
              = map ?g (getAttendanceSessionsByUserAndDate st uid d)" for d
    by (rule sessions_update) simp_all
  have fm: "find (\<lambda>s. checkOut s = None) (map ?g xs)
              = map_option ?g (find (\<lambda>s. checkOut s = None) xs)" for xs
    by (rule find_map_same) simp
  show ?thesis
    using assms by (simp add: st1 ss fm)
qed

lemma totalBreakMins_no_start:
  "breakStart r = None \<Longrightarrow> totalBreakMins (calculateDailyTotal [r]) = 0"
  by (simp add: calculateDailyTotal_def recordStep_def calculateDuration_def Let_def
      split: prod.splits)

lemma storeOpen_sel: "rows storeOpen = [openSession1]" "nextId storeOpen = 2"
  by (simp_all add: storeOpen_def)

lemma openSession1_sel: "checkOut openSession1 = None" "breakStart openSession1 = None"
  "id' openSession1 = 1"
  by (simp_all add: openSession1_def insertDefaults_def)

text \<open>
  C10. Break-start and break-end are rejected (no active session) exactly when the day
  has no session with checkOut null, and then change nothing. When \<open>e\<close> is the day's
  first open session, whatever its break columns hold, break-end is accepted and sets
  breakEnd on the rows of that id, leaving breakStart as it was: if breakStart was null
  it stays null and the aggregator counts 0 break minutes for the session. A second
  break-start on the same business date is accepted too and leaves breakStart at the
  instant of the second request.
\<close>

theorem break_needs_only_open_session:
  "(find (\<lambda>s. checkOut s = None)
      (getAttendanceSessionsByUserAndDate st uid (getJakartaDate now)) = None
    \<longrightarrow> breakStartH st uid now p1 l1 = (st, Inl NoActiveSession)
        \<and> breakEndH st uid now p1 l1 = (st, Inl NoActiveSession))
   \<and> (find (\<lambda>s. checkOut s = None)
        (getAttendanceSessionsByUserAndDate st uid (getJakartaDate now)) = Some e
      \<longrightarrow> (\<exists>a. snd (breakEndH st uid now p1 l1) = Inr (Some a)
                 \<and> id' a = id' e \<and> breakEnd a = Some now)
          \<and> rows (fst (breakEndH st uid now p1 l1))
              = map (\<lambda>r. if id' r = id' e
                          then r\<lparr>breakEnd := Some now,
                                 breakEndPhoto := orKeep p1 (breakEndPhoto r),
                                 breakEndLocation := orKeep l1 (breakEndLocation r)\<rparr>
                          else r) (rows st)
          \<and> e \<in> set (rows st)
          \<and> (breakStart e = None
              \<longrightarrow> breakStart (e\<lparr>breakEnd := Some now,
                                  breakEndPhoto := orKeep p1 (breakEndPhoto e),
                                  breakEndLocation := orKeep l1 (breakEndLocation e)\<rparr>) = None
                  \<and> totalBreakMins (calculateDailyTotal
                        [e\<lparr>breakEnd := Some now,
                           breakEndPhoto := orKeep p1 (breakEndPhoto e),
                           breakEndLocation := orKeep l1 (breakEndLocation e)\<rparr>]) = 0)
          \<and> (getJakartaDate now2 = getJakartaDate now
              \<longrightarrow> (\<exists>a. snd (breakStartH (fst (breakStartH st uid now p1 l1)) uid now2 p2 l2)
                           = Inr (Some a)
                         \<and> id' a = id' e \<and> breakStart a = Some now2)
                  \<and> rows (fst (breakStartH (fst (breakStartH st uid now p1 l1)) uid now2 p2 l2))
                      = map (\<lambda>r. if id' r = id' e
                            then r\<lparr>breakStart := Some now2,
                                   breakStartPhoto := orKeep p2 (orKeep p1 (breakStartPhoto r)),
                                   breakStartLocation := orKeep l2 (orKeep l1 (breakStartLocation r))\<rparr>
                            else r) (rows st)))"
    (is "(?none \<longrightarrow> ?A) \<and> (?some \<longrightarrow> ?B1 \<and> ?B2 \<and> ?B3 \<and> ?B4 \<and> (?same \<longrightarrow> ?C1 \<and> ?C2))")
proof (intro conjI impI)
  assume ?none
  then show "breakStartH st uid now p1 l1 = (st, Inl NoActiveSession)"
    by (simp add: breakStartH_def Let_def)
  from \<open>?none\<close> show "breakEndH st uid now p1 l1 = (st, Inl NoActiveSession)"
    by (simp add: breakEndH_def Let_def)
next
  assume s: ?some
  from breakEndH_open [OF s, of p1 l1] show ?B1 by auto
  from breakEndH_open [OF s, of p1 l1] show ?B2 by auto
  from s show ?B3 by (rule find_open_in_rows)
next
  assume "breakStart e = None"
  then show "breakStart (e\<lparr>breakEnd := Some now,
                                  breakEndPhoto := orKeep p1 (breakEndPhoto e),
                                  breakEndLocation := orKeep l1 (breakEndLocation e)\<rparr>) = None"
    by simp
  from \<open>breakStart e = None\<close>
  show "totalBreakMins (calculateDailyTotal
                        [e\<lparr>breakEnd := Some now,
                           breakEndPhoto := orKeep p1 (breakEndPhoto e),
                           breakEndLocation := orKeep l1 (breakEndLocation e)\<rparr>]) = 0"
    by (simp add: totalBreakMins_no_start)
next
  assume s: ?some and d: ?same
  from breakStartH_open [OF s, of p1 l1]
  have r1: "rows (fst (breakStartH st uid now p1 l1))
              = map (\<lambda>r. if id' r = id' e
                          then r\<lparr>breakStart := Some now,
                                 breakStartPhoto := orKeep p1 (breakStartPhoto r),
                                 breakStartLocation := orKeep l1 (breakStartLocation r)\<rparr>
                          else r) (rows st)"
    by auto
  from breakStartH_keeps_open [OF s, of p1 l1] obtain e' where
    e': "find (\<lambda>s. checkOut s = None)
           (getAttendanceSessionsByUserAndDate (fst (breakStartH st uid now p1 l1)) uid
              (getJakartaDate now2)) = Some e'" "id' e' = id' e"
    using d by auto
  note second = breakStartH_open [OF e'(1), of p2 l2, unfolded e'(2)]
  from second show ?C1 by auto
  from second have "rows (fst (breakStartH (fst (breakStartH st uid now p1 l1)) uid now2 p2 l2))
      = map (\<lambda>r. if id' r = id' e
                  then r\<lparr>breakStart := Some now2,
                         breakStartPhoto := orKeep p2 (breakStartPhoto r),
                         breakStartLocation := orKeep l2 (breakStartLocation r)\<rparr>
                  else r) (rows (fst (breakStartH st uid now p1 l1)))"
    by auto
  then show ?C2
    unfolding r1 by (simp add: comp_def cong: if_cong)
qed

text \<open>
  The empty table rejects both requests. On the table with session 1 open and no break
  started, break-end at 13:00 sets breakEnd and leaves breakStart null, with 0 break
  minutes; break-start at 12:00 and again at 12:05 leaves breakStart at 12:05.
\<close>

theorem break_needs_only_open_session_witness:
  "breakStartH store0 7 (jakartaInstant 20000 13 0) None None = (store0, Inl NoActiveSession)
   \<and> breakEndH store0 7 (jakartaInstant 20000 13 0) None None = (store0, Inl NoActiveSession)
   \<and> rows (fst (breakEndH storeOpen 7 (jakartaInstant 20000 13 0) None None))
       = [openSession1\<lparr>breakEnd := Some (jakartaInstant 20000 13 0)\<rparr>]
   \<and> breakStart (openSession1\<lparr>breakEnd := Some (jakartaInstant 20000 13 0)\<rparr>) = None
   \<and> totalBreakMins (calculateDailyTotal
         [openSession1\<lparr>breakEnd := Some (jakartaInstant 20000 13 0)\<rparr>]) = 0
   \<and> rows (fst (breakStartH (fst (breakStartH storeOpen 7 (jakartaInstant 20000 12 0) None None))
                 7 (jakartaInstant 20000 12 5) None None))
       = [openSession1\<lparr>breakStart := Some (jakartaInstant 20000 12 5)\<rparr>]"
proof -
  have d: "getJakartaDate (jakartaInstant 20000 13 0) = 20000"
    "getJakartaDate (jakartaInstant 20000 12 0) = 20000"
    "getJakartaDate (jakartaInstant 20000 12 5) = 20000"
    by (simp_all add: date_20000)
  have n: "find (\<lambda>s. checkOut s = None)
      (getAttendanceSessionsByUserAndDate store0 7 (getJakartaDate (jakartaInstant 20000 13 0))) = None"
    by (simp add: sessions_store0)
  have o13: "find (\<lambda>s. checkOut s = None)
      (getAttendanceSessionsByUserAndDate storeOpen 7 (getJakartaDate (jakartaInstant 20000 13 0)))
       = Some openSession1"
    by (simp add: d sessions_storeOpen openSession1_sel)
  have o12: "find (\<lambda>s. checkOut s = None)
      (getAttendanceSessionsByUserAndDate storeOpen 7 (getJakartaDate (jakartaInstant 20000 12 0)))
       = Some openSession1"
    by (simp add: d sessions_storeOpen openSession1_sel)
  have same: "getJakartaDate (jakartaInstant 20000 12 5) = getJakartaDate (jakartaInstant 20000 12 0)"
    by (simp add: d)
  note t0 = break_needs_only_open_session [of store0 7 "jakartaInstant 20000 13 0" None None]
  note t13 = break_needs_only_open_session [of storeOpen 7 "jakartaInstant 20000 13 0" None None
      openSession1]
  note t12 = break_needs_only_open_session [of storeOpen 7 "jakartaInstant 20000 12 0" None None
      openSession1 "jakartaInstant 20000 12 5" None None]
  from t0 n have a: "breakStartH store0 7 (jakartaInstant 20000 13 0) None None = (store0, Inl NoActiveSession)"
    "breakEndH store0 7 (jakartaInstant 20000 13 0) None None = (store0, Inl NoActiveSession)"
    by blast+
  from t13 o13 have "rows (fst (breakEndH storeOpen 7 (jakartaInstant 20000 13 0) None None))
       = map (\<lambda>r. if id' r = id' openSession1
                          then r\<lparr>breakEnd := Some (jakartaInstant 20000 13 0),
                                 breakEndPhoto := orKeep None (breakEndPhoto r),
                                 breakEndLocation := orKeep None (breakEndLocation r)\<rparr>
                          else r) (rows storeOpen)"
    by blast
  then have b: "rows (fst (breakEndH storeOpen 7 (jakartaInstant 20000 13 0) None None))
       = [openSession1\<lparr>breakEnd := Some (jakartaInstant 20000 13 0)\<rparr>]"
    by (simp add: storeOpen_sel orKeep_def)
  from t13 o13 openSession1_sel(2)
  have "breakStart (openSession1\<lparr>breakEnd := Some (jakartaInstant 20000 13 0),
                                 breakEndPhoto := orKeep None (breakEndPhoto openSession1),
                                 breakEndLocation := orKeep None (breakEndLocation openSession1)\<rparr>) = None
       \<and> totalBreakMins (calculateDailyTotal
             [openSession1\<lparr>breakEnd := Some (jakartaInstant 20000 13 0),
                                 breakEndPhoto := orKeep None (breakEndPhoto openSession1),
                                 breakEndLocation := orKeep None (breakEndLocation openSession1)\<rparr>]) = 0"
    by blast
  then have c: "breakStart (openSession1\<lparr>breakEnd := Some (jakartaInstant 20000 13 0)\<rparr>) = None"
    "totalBreakMins (calculateDailyTotal
         [openSession1\<lparr>breakEnd := Some (jakartaInstant 20000 13 0)\<rparr>]) = 0"
    by (simp_all add: orKeep_def)
  from t12 o12 same
  have "rows (fst (breakStartH (fst (breakStartH storeOpen 7 (jakartaInstant 20000 12 0) None None))
                 7 (jakartaInstant 20000 12 5) None None))
         = map (\<lambda>r. if id' r = id' openSession1
                            then r\<lparr>breakStart := Some (jakartaInstant 20000 12 5),
                                   breakStartPhoto := orKeep None (orKeep None (breakStartPhoto r)),
                                   breakStartLocation := orKeep None (orKeep None (breakStartLocation r))\<rparr>
                            else r) (rows storeOpen)"
    by blast
  then have e: "rows (fst (breakStartH (fst (breakStartH storeOpen 7 (jakartaInstant 20000 12 0) None None))
                 7 (jakartaInstant 20000 12 5) None None))
       = [openSession1\<lparr>breakStart := Some (jakartaInstant 20000 12 5)\<rparr>]"
    by (simp add: storeOpen_sel orKeep_def)
  from a b c e show ?thesis by blast
qed

section \<open>What the handlers write besides\<close>

text \<open>
  Clock-in rejects a sixth session. Clock-in and resume at most append one row;
  break-start and break-end leave every checkOut as it is; clock-out writes checkOut only
  on the rows that carry the id of an open session; a permit on a day without sessions
  creates session number 1.
\<close>

lemma clockIn_limit:
  assumes "find (\<lambda>s. checkOut s = None)
             (getAttendanceSessionsByUserAndDate st uid (getJakartaDate now)) = None"
    and "5 \<le> length (getAttendanceSessionsByUserAndDate st uid (getJakartaDate now))"
  shows "clockIn st uid now shiftIn photoFileId location = (st, Inl SessionLimitExceeded)"
  using assms by (simp add: clockIn_def Let_def)

lemma clockIn_rows:
  "rows (fst (clockIn st uid now shiftIn photoFileId location)) = rows st
   \<or> (\<exists>a. rows (fst (clockIn st uid now shiftIn photoFileId location)) = rows st @ [a])"
  by (auto simp: clockIn_def Let_def createAttendance_def split: option.splits)

lemma resume_rows:
  "rows (fst (resume st uid now)) = rows st
   \<or> (\<exists>a. rows (fst (resume st uid now)) = rows st @ [a])"
  by (auto simp: resume_def Let_def createAttendance_def split: option.splits)

lemma breakStartH_checkOut:
  "map checkOut (rows (fst (breakStartH st uid now p l))) = map checkOut (rows st)"
  by (auto simp: breakStartH_def Let_def updateAttendance_def comp_def split: option.splits)

lemma breakEndH_checkOut:
  "map checkOut (rows (fst (breakEndH st uid now p l))) = map checkOut (rows st)"
  by (auto simp: breakEndH_def Let_def updateAttendance_def comp_def split: option.splits)

lemma clockOut_rows:
  "rows (fst (clockOut st uid now p l)) = rows st
   \<or> (\<exists>e \<in> set (rows st). checkOut e = None \<and>
         rows (fst (clockOut st uid now p l))
           = map (\<lambda>r. if id' r = id' e
                       then r\<lparr>checkOut := Some now, checkOutPhoto := orKeep p (checkOutPhoto r),
                              checkOutLocation := orKeep l (checkOutLocation r)\<rparr>
                       else r) (rows st))"
proof (cases "find (\<lambda>s. checkOut s = None)
                (getAttendanceSessionsByUserAndDate st uid (getJakartaDate now))")
  case None
  then show ?thesis by (simp add: clockOut_def Let_def)
next
  case (Some e)
  then have "e \<in> set (rows st)" "checkOut e = None"
    by (rule find_open_in_rows)+
  with Some show ?thesis
    by (auto simp: clockOut_def Let_def updateAttendance_def)
qed

lemma permit_first_session:
  assumes "getAttendanceSessionsByUserAndDate st uid (getJakartaDate now) = []"
  shows "\<exists>a. permit st uid now type notesIn photoFileId
               = (st\<lparr>rows := rows st @ [a], nextId := Suc (nextId st)\<rparr>, Inr (Some a))
             \<and> sessionNumber a = 1 \<and> status a = type \<and> checkIn a = Some now"
  using assms
  by (simp add: permit_def Let_def getAttendanceByUserAndDate_def createAttendance_def
      insertDefaults_def)

end
